(* ===== verification/Prelude.thy ===== *)
theory Prelude
  imports Complex_Main "HOL-Library.Multiset" "HOL-Library.Char_ord" "HOL-Library.List_Lexorder"
begin

text \<open>
  Shared vocabulary of the development: the JavaScript values and runtime operations
  that the TypeScript sources of the role generator rely on, and the generic lemmas on
  association lists, strings and sorting that the component theories share.
  \<^item> \<open>json\<close>: a value produced by \<open>JSON.parse\<close>; objects keep the member list of
    the source text (duplicates included), the object that \<open>JSON.parse\<close> builds from
    it is \<open>js_object_of\<close>.
  \<^item> \<open>exn\<close>: a thrown value; \<open>ErrorObj name message\<close> is an instance of \<open>Error\<close>.
  \<^item> \<open>gfile\<close>: the \<open>GeneratedFile\<close> record (\<open>path\<close>, \<open>content\<close>); the
    \<open>content\<close> is the runtime value, since the code only casts it.
  \<^item> ordinary objects with string keys are association lists in property-creation
    order; \<open>prop_set\<close> is a property write, \<open>own_keys\<close> the order in which
    \<open>Object.keys\<close>, \<open>Object.values\<close> and \<open>Object.entries\<close> list them
    (array-index keys first, ascending, then the others in creation order).
  \<^item> strings are \<open>char list\<close>; \<open>js_split\<close>, \<open>js_trim\<close>, \<open>js_ends_with\<close> and
    \<open>js_includes\<close> are \<open>String.prototype.split\<close>, \<open>trim\<close>, \<open>endsWith\<close> and
    \<open>includes\<close>.
\<close>

named_theorems js_simps "evaluation rules of the JavaScript runtime primitives"
named_theorems assoc_simps "rules for association lists used as JavaScript objects"

section \<open>Values, errors and generated files\<close>

datatype json =
    JNull
  | JBool bool
  | JNum int
  | JStr string
  | JArr "json list"
  | JObj "(string \<times> json) list"

datatype exn =
    ErrorObj (err_name: string) (err_message: string)
  | ThrownValue

record gfile =
  path :: string
  content :: json

type_synonym 'v js_object = "(string \<times> 'v) list"

section \<open>Ordinary objects\<close>

text \<open>A property write \<open>o[k] = v\<close>: an existing property keeps its position.\<close>

fun prop_set :: "'v js_object \<Rightarrow> string \<Rightarrow> 'v \<Rightarrow> 'v js_object" where
  "prop_set [] k v = [(k, v)]"
| "prop_set ((k', v') # ps) k v =
     (if k' = k then (k, v) # ps else (k', v') # prop_set ps k v)"

text \<open>The object \<open>JSON.parse\<close> builds from the members of an object literal.\<close>

definition js_object_of :: "'v js_object \<Rightarrow> 'v js_object" where
  "js_object_of ms = foldl (\<lambda>ps (k, v). prop_set ps k v) [] ms"

definition is_digit :: "char \<Rightarrow> bool" where
  "is_digit c \<longleftrightarrow> (48::nat) \<le> of_char c \<and> of_char c \<le> (57::nat)"

definition digits_val :: "string \<Rightarrow> nat" where
  "digits_val s = foldl (\<lambda>n c. 10 * n + (of_char c - 48)) 0 s"

fun canonical_digits :: "string \<Rightarrow> bool" where
  "canonical_digits [] = False"
| "canonical_digits (c # cs) =
     (list_all is_digit (c # cs) \<and> (if c = CHR ''0'' then cs = [] else True))"

text \<open>An array index: the canonical decimal form of a number below \<open>2^32 - 1\<close>.\<close>

definition is_array_index :: "string \<Rightarrow> bool" where
  "is_array_index s \<longleftrightarrow> canonical_digits s \<and> digits_val s < 4294967295"

definition own_keys :: "'v js_object \<Rightarrow> 'v js_object" where
  "own_keys ps =
     sort_key (\<lambda>kv. digits_val (fst kv)) (filter (\<lambda>kv. is_array_index (fst kv)) ps)
     @ filter (\<lambda>kv. \<not> is_array_index (fst kv)) ps"

definition digit_char :: "nat \<Rightarrow> char" where
  "digit_char d = char_of (48 + d)"

fun dec_string :: "nat \<Rightarrow> string" where
  "dec_string n =
     (if n < 10 then [digit_char n] else dec_string (n div 10) @ [digit_char (n mod 10)])"

declare dec_string.simps [simp del]

text \<open>
  \<open>Object.entries\<close> applied to a value returned by \<open>JSON.parse\<close>: \<open>null\<close> throws,
  booleans and numbers have no own enumerable properties, a string lists its characters
  and an array its elements under their decimal indices.
\<close>

fun object_entries :: "json \<Rightarrow> exn + json js_object" where
  "object_entries JNull =
     Inl (ErrorObj ''TypeError'' ''Cannot convert undefined or null to object'')"
| "object_entries (JBool b) = Inr []"
| "object_entries (JNum n) = Inr []"
| "object_entries (JStr s) = Inr (map (\<lambda>(i, c). (dec_string i, JStr [c])) (enumerate 0 s))"
| "object_entries (JArr vs) = Inr (map (\<lambda>(i, v). (dec_string i, v)) (enumerate 0 vs))"
| "object_entries (JObj ms) = Inr (own_keys (js_object_of ms))"

section \<open>Strings\<close>

definition is_js_space :: "char \<Rightarrow> bool" where
  "is_js_space c \<longleftrightarrow> of_char c \<in> {9, 10, 11, 12, 13, 32, 160 :: nat}"

definition js_trim :: "string \<Rightarrow> string" where
  "js_trim s = rev (dropWhile is_js_space (rev (dropWhile is_js_space s)))"

fun js_split :: "char \<Rightarrow> string \<Rightarrow> string list" where
  "js_split c [] = [[]]"
| "js_split c (x # xs) =
     (if x = c then [] # js_split c xs
      else (case js_split c xs of [] \<Rightarrow> [[x]] | w # ws \<Rightarrow> (x # w) # ws))"

fun js_join :: "char \<Rightarrow> string list \<Rightarrow> string" where
  "js_join c [] = []"
| "js_join c [w] = w"
| "js_join c (w # ws) = w @ c # js_join c ws"

fun starts_with :: "string \<Rightarrow> string \<Rightarrow> bool" where
  "starts_with s [] = True"
| "starts_with [] (y # ys) = False"
| "starts_with (x # xs) (y # ys) = (x = y \<and> starts_with xs ys)"

definition js_ends_with :: "string \<Rightarrow> string \<Rightarrow> bool" where
  "js_ends_with s t = starts_with (rev s) (rev t)"

fun js_includes :: "string \<Rightarrow> string \<Rightarrow> bool" where
  "js_includes [] w = (w = [])"
| "js_includes (x # xs) w = (starts_with (x # xs) w \<or> js_includes xs w)"

section \<open>Lemmas on objects\<close>

lemma map_of_prop_set [assoc_simps, simp]: "map_of (prop_set ps k v) = (map_of ps)(k \<mapsto> v)"
  by (induction ps) (auto simp: fun_eq_iff)

lemma keys_prop_set [assoc_simps]:
  "map fst (prop_set ps k v) = (if k \<in> set (map fst ps) then map fst ps else map fst ps @ [k])"
  by (induction ps) force+

lemma set_keys_prop_set [assoc_simps, simp]:
  "fst ` set (prop_set ps k v) = insert k (fst ` set ps)"
proof -
  have "set (map fst (prop_set ps k v)) = insert k (set (map fst ps))"
    by (auto simp: keys_prop_set)
  then show ?thesis by simp
qed

lemma distinct_prop_set [assoc_simps, simp]:
  "distinct (map fst (prop_set ps k v)) = distinct (map fst ps)"
  by (induction ps) (auto simp: keys_prop_set)

lemma prop_set_existing [assoc_simps]:
  "map_of ps k = Some v' \<Longrightarrow> map fst (prop_set ps k v) = map fst ps"
  by (auto simp: keys_prop_set dest: map_of_SomeD intro: rev_image_eqI)

lemma prop_set_values:
  "set (prop_set ps k v) \<subseteq> insert (k, v) (set ps)"
  by (induction ps) (auto split: if_splits)

lemma prop_set_fresh [assoc_simps]:
  "k \<notin> fst ` set ps \<Longrightarrow> prop_set ps k v = ps @ [(k, v)]"
  by (induction ps) auto

lemma foldl_prop_set_map_of:
  "map_of (foldl (\<lambda>ps (k, v). prop_set ps k v) ps0 ms) = map_of ps0 ++ map_of (rev ms)"
  by (induction ms arbitrary: ps0) (auto simp: map_add_def fun_eq_iff split: option.splits)

lemma map_of_js_object_of [assoc_simps]: "map_of (js_object_of ms) = map_of (rev ms)"
  by (simp add: js_object_of_def foldl_prop_set_map_of)

lemma foldl_prop_set_keys:
  "fst ` set (foldl (\<lambda>ps (k, v). prop_set ps k v) ps0 ms) = fst ` set ps0 \<union> fst ` set ms"
  by (induction ms arbitrary: ps0) (simp_all add: split_def)

lemma keys_js_object_of [assoc_simps]: "fst ` set (js_object_of ms) = fst ` set ms"
  by (simp add: js_object_of_def foldl_prop_set_keys)

lemma distinct_js_object_of [assoc_simps]: "distinct (map fst (js_object_of ms))"
proof -
  have "distinct (map fst ps0) \<Longrightarrow>
        distinct (map fst (foldl (\<lambda>ps (k, v). prop_set ps k v) ps0 ms))" for ps0
    by (induction ms arbitrary: ps0) auto
  then show ?thesis by (simp add: js_object_of_def)
qed

lemma js_object_of_distinct [assoc_simps]:
  "distinct (map fst ms) \<Longrightarrow> js_object_of ms = ms"
proof -
  have "distinct (map fst (ps @ ms)) \<Longrightarrow>
        foldl (\<lambda>ps (k, v). prop_set ps k v) ps ms = ps @ ms" for ps
    by (induction ms arbitrary: ps) (auto simp: prop_set_fresh)
  then show "distinct (map fst ms) \<Longrightarrow> js_object_of ms = ms"
    by (simp add: js_object_of_def)
qed

lemma own_keys_no_index [assoc_simps]:
  assumes "\<not> list_ex (\<lambda>kv. is_array_index (fst kv)) ps"
  shows "own_keys ps = ps"
proof -
  have "filter (\<lambda>kv. is_array_index (fst kv)) ps = []"
    using assms by (auto simp: filter_empty_conv list_ex_iff)
  moreover have "filter (\<lambda>kv. \<not> is_array_index (fst kv)) ps = ps"
    using assms by (auto simp: list_ex_iff)
  ultimately show ?thesis by (simp add: own_keys_def)
qed

lemma set_own_keys [assoc_simps, simp]: "set (own_keys ps) = set ps"
  by (auto simp: own_keys_def)

lemma mset_filter_partition: "mset (filter P xs) + mset (filter (\<lambda>x. \<not> P x) xs) = mset xs"
  by (induction xs) auto

lemma mset_own_keys: "mset (own_keys ps) = mset ps"
  by (simp add: own_keys_def mset_filter_partition)

lemma distinct_own_keys [assoc_simps]:
  assumes "distinct (map fst ps)"
  shows "distinct (map fst (own_keys ps))"
proof -
  have "mset (map fst (own_keys ps)) = mset (map fst ps)"
    by (simp add: mset_own_keys)
  then show ?thesis using assms by (metis mset_eq_imp_distinct_iff)
qed

section \<open>Lemmas on strings\<close>

lemma js_split_not_Nil [js_simps, simp]: "js_split c s \<noteq> []"
  by (induction s) (auto split: list.splits)

lemma js_split_Cons_other [js_simps]:
  "x \<noteq> c \<Longrightarrow> js_split c (x # xs) = (x # hd (js_split c xs)) # tl (js_split c xs)"
  by (cases "js_split c xs") auto

lemma js_split_no_sep [js_simps]: "w \<in> set (js_split c s) \<Longrightarrow> c \<notin> set w"
  by (induction s arbitrary: w) (auto split: if_splits list.splits)

lemma js_join_split [js_simps]: "js_join c (js_split c s) = s"
proof (induction s)
  case Nil
  then show ?case by simp
next
  case (Cons x xs)
  then show ?case
    by (cases "js_split c xs"; cases "tl (js_split c xs)") (auto split: list.splits)
qed

lemma js_split_append_sep:
  "c \<notin> set w \<Longrightarrow> js_split c (w @ c # s) = w # js_split c s"
  by (induction w) auto

lemma js_split_no_sep_word: "c \<notin> set w \<Longrightarrow> js_split c w = [w]"
  by (induction w) auto

lemma js_split_join [js_simps]:
  "ws \<noteq> [] \<Longrightarrow> list_all (\<lambda>w. c \<notin> set w) ws \<Longrightarrow> js_split c (js_join c ws) = ws"
proof (induction ws rule: js_join.induct)
  case (3 c w v vs)
  then show ?case by (simp add: js_split_append_sep)
qed (auto simp: js_split_no_sep_word)

lemma starts_with_iff [js_simps]: "starts_with s w \<longleftrightarrow> take (length w) s = w"
  by (induction s w rule: starts_with.induct) auto

lemma js_includes_iff [js_simps]: "js_includes s w \<longleftrightarrow> (\<exists>a b. s = a @ w @ b)"
proof (induction s)
  case Nil
  then show ?case by simp
next
  case (Cons x xs)
  have "starts_with (x # xs) w \<longleftrightarrow> (\<exists>b. x # xs = w @ b)"
    by (metis append_take_drop_id starts_with_iff append_eq_conv_conj)
  then show ?case
    using Cons by (auto simp: Cons_eq_append_conv)
qed

lemma js_ends_with_iff [js_simps]: "js_ends_with s t \<longleftrightarrow> (\<exists>a. s = a @ t)"
proof -
  have "starts_with (rev s) (rev t) \<longleftrightarrow> (\<exists>b. rev s = rev t @ b)"
    by (metis append_take_drop_id starts_with_iff append_eq_conv_conj)
  also have "\<dots> \<longleftrightarrow> (\<exists>a. s = a @ t)"
    by (metis rev_append rev_rev_ident)
  finally show ?thesis unfolding js_ends_with_def .
qed

lemma hd_js_split [js_simps]: "hd (js_split c s) = takeWhile (\<lambda>x. x \<noteq> c) s"
  by (induction s) (auto split: list.splits)

section \<open>Lemmas on decimal indices\<close>

lemma digits_val_snoc: "digits_val (xs @ [c]) = 10 * digits_val xs + (of_char c - 48)"
  by (simp add: digits_val_def)

lemma digits_val_dec_string [js_simps]: "digits_val (dec_string n) = n"
proof (induction n rule: dec_string.induct)
  case (1 n)
  have dc: "of_char (digit_char d) - 48 = d" if "d < 10" for d :: nat
    using that by (simp add: digit_char_def of_char_of)
  show ?case
  proof (cases "n < 10")
    case True
    then show ?thesis by (simp add: dec_string.simps [of n] digits_val_def dc)
  next
    case False
    then have "digits_val (dec_string (n div 10)) = n div 10" by (rule "1.IH")
    with False show ?thesis by (simp add: dec_string.simps [of n] digits_val_snoc dc)
  qed
qed

lemma dec_string_inj: "inj dec_string"
  by (metis digits_val_dec_string injI)

lemma map_fst_enumerate_comp:
  "map (\<lambda>x. g (fst x)) (enumerate n xs) = map g [n..<n + length xs]"
proof -
  have "map (\<lambda>x. g (fst x)) (enumerate n xs) = map g (map fst (enumerate n xs))"
    by (simp only: map_map comp_def)
  also have "\<dots> = map g [n..<n + length xs]"
    by (simp only: map_fst_enumerate)
  finally show ?thesis .
qed

lemmas js_eval = own_keys_def js_object_of_def is_array_index_def is_digit_def digits_val_def
  js_trim_def is_js_space_def

lemma foldr_max_le_iff [simp]: "foldr max xs (0::nat) \<le> b \<longleftrightarrow> list_all (\<lambda>x. x \<le> b) xs"
  by (induction xs) auto

lemma Suc_le_max_pred: "x \<le> max (h - 1) l \<Longrightarrow> Suc x \<le> max h (Suc (l::nat))"
  by (cases h) auto

end
