(* ===== verification/FileTree.thy ===== *)
theory FileTree
  imports Prelude
begin

text \<open>
  The file tree of \<open>src/components/CodeDisplay.tsx\<close>: the \<open>TreeNode\<close> interface,
  \<open>buildFileTree\<close>, which inserts every generated file along the segments of its
  path, with the invariants of the trees it builds (well-formedness, node type,
  height); the rendering is in theory \<open>TreeView\<close>.  A node's \<open>children\<close> is an ordinary object created by \<open>{}\<close>, so the
  test \<open>!currentNode.children[part]\<close> also sees the properties inherited from
  \<open>Object.prototype\<close>: for such a segment no child is created and the walk leaves
  the tree, and the remaining segments are written into objects outside it.  A segment
  \<open>__proto__\<close>, in the tree or after leaving it, resolves to \<open>Object.prototype\<close>
  itself, which the walk then writes (\<open>children\<close> or \<open>file\<close>), changing every
  object of the page; the model stops there (\<open>buildFileTree\<close> returns \<open>None\<close>).
\<close>

section \<open>Nodes\<close>

datatype tnode = TNode (tname: string) (tchildren: "tnode js_object option") (tfile: "gfile option")

definition object_proto_names :: "string list" where
  "object_proto_names =
     [''constructor'', ''__defineGetter__'', ''__defineSetter__'', ''hasOwnProperty'',
      ''__lookupGetter__'', ''__lookupSetter__'', ''isPrototypeOf'', ''propertyIsEnumerable'',
      ''toString'', ''valueOf'', ''__proto__'', ''toLocaleString'']"

definition kids :: "tnode \<Rightarrow> tnode js_object" where
  "kids n = (case tchildren n of None \<Rightarrow> [] | Some cs \<Rightarrow> cs)"

definition with_children :: "tnode \<Rightarrow> tnode js_object \<Rightarrow> tnode" where
  "with_children n cs = TNode (tname n) (Some cs) (tfile n)"

definition set_file :: "tnode \<Rightarrow> gfile \<Rightarrow> tnode" where
  "set_file n f = TNode (tname n) (tchildren n) (Some f)"

text \<open>
  \<open>if (!currentNode.children[part]) currentNode.children[part] = { name: part }\<close>:
  the node the walk continues into, \<open>None\<close> when \<open>part\<close> names an inherited property
  (which is truthy, so nothing is created).
\<close>

definition child_slot :: "tnode js_object \<Rightarrow> string \<Rightarrow> tnode option" where
  "child_slot cs p =
     (case map_of cs p of
        Some c \<Rightarrow> Some c
      | None \<Rightarrow> if p \<in> set object_proto_names then None else Some (TNode p None None))"

text \<open>The inner \<open>parts.forEach\<close> loop of \<open>buildFileTree\<close>, from the node it has reached.\<close>

fun insert_parts :: "gfile \<Rightarrow> string list \<Rightarrow> tnode \<Rightarrow> tnode option" where
  "insert_parts f [] n = Some n"
| "insert_parts f (p # ps) n =
     (case child_slot (kids n) p of
        None \<Rightarrow> if ''__proto__'' \<in> set (p # ps) then None else Some (with_children n (kids n))
      | Some c \<Rightarrow>
          map_option (\<lambda>c'. with_children n (prop_set (kids n) p c'))
            (if ps = [] then Some (set_file c f) else insert_parts f ps c))"

definition root_node :: tnode where
  "root_node = TNode ''root'' (Some []) None"

definition path_segments :: "gfile \<Rightarrow> string list" where
  "path_segments f = js_split CHR ''/'' (path f)"

definition add_file :: "tnode option \<Rightarrow> gfile \<Rightarrow> tnode option" where
  "add_file t f = (case t of None \<Rightarrow> None | Some r \<Rightarrow> insert_parts f (path_segments f) r)"

definition buildFileTree :: "gfile list \<Rightarrow> tnode option" where
  "buildFileTree files = foldl add_file (Some root_node) files"

section \<open>Reading the tree\<close>

fun lookup_node :: "tnode \<Rightarrow> string list \<Rightarrow> tnode option" where
  "lookup_node n [] = Some n"
| "lookup_node n (p # ps) = (case map_of (kids n) p of None \<Rightarrow> None | Some c \<Rightarrow> lookup_node c ps)"

definition file_at :: "tnode \<Rightarrow> string list \<Rightarrow> gfile option" where
  "file_at t ps = (case lookup_node t ps of None \<Rightarrow> None | Some n \<Rightarrow> tfile n)"

definition is_dir :: "tnode \<Rightarrow> bool" where
  "is_dir n \<longleftrightarrow> tchildren n \<noteq> None"

text \<open>A path the walk follows inside the tree: none of its segments is inherited.\<close>

definition tree_path :: "string list \<Rightarrow> bool" where
  "tree_path ps \<longleftrightarrow> list_all (\<lambda>p. p \<notin> set object_proto_names) ps"

text \<open>
  Well-formed nodes: children keys are distinct, a child is named by its key, and no
  key is an inherited property name.
\<close>

fun wf_node :: "tnode \<Rightarrow> bool" where
  "wf_node (TNode nm cs fo) =
     (case cs of
        None \<Rightarrow> True
      | Some ks \<Rightarrow> distinct (map fst ks)
          \<and> list_all (\<lambda>kc. tname (snd kc) = fst kc \<and> fst kc \<notin> set object_proto_names
                         \<and> wf_node (snd kc)) ks)"

text \<open>
  The node type of the specification, \<open>DirectoryNode | FileNode\<close>: every node below
  the root is a directory (it has \<open>children\<close>) or carries a file, and a file sits at
  the node named by the last segment of its path and is one of the files \<open>F\<close>.
\<close>

fun typed_node :: "gfile set \<Rightarrow> tnode \<Rightarrow> bool" where
  "typed_node F (TNode nm cs fo) =
     (pred_option (\<lambda>f. f \<in> F \<and> last (path_segments f) = nm) fo
      \<and> (case cs of None \<Rightarrow> fo \<noteq> None | Some ks \<Rightarrow> list_all (\<lambda>kc. typed_node F (snd kc)) ks))"

text \<open>The height of a tree: a file node has height 0.\<close>

fun height :: "tnode \<Rightarrow> nat" where
  "height (TNode nm cs fo) =
     (case cs of None \<Rightarrow> 0 | Some ks \<Rightarrow> Suc (foldr max (map (\<lambda>kc. height (snd kc)) ks) 0))"

text \<open>A node that becomes typed once it is made a directory or given a file.\<close>

definition typed_parts :: "gfile set \<Rightarrow> tnode \<Rightarrow> bool" where
  "typed_parts F n \<longleftrightarrow>
     pred_option (\<lambda>f. f \<in> F \<and> last (path_segments f) = tname n) (tfile n)
     \<and> list_all (\<lambda>kc. typed_node F (snd kc)) (kids n)"

text \<open>
  What the tree promises: the file stored under a list of segments is the last file
  of the list with that path, among the files whose path stays in the tree.
\<close>

definition tree_spec :: "gfile list \<Rightarrow> string list \<Rightarrow> gfile option" where
  "tree_spec fs =
     map_of (rev (map (\<lambda>f. (path_segments f, f)) (filter (\<lambda>f. tree_path (path_segments f)) fs)))"

section \<open>Lemmas on nodes\<close>

lemma tnode_sel_simps [simp]:
  "kids (with_children n cs) = cs"
  "tname (with_children n cs) = tname n"
  "tfile (with_children n cs) = tfile n"
  "tchildren (with_children n cs) = Some cs"
  "kids (set_file n f) = kids n"
  "tname (set_file n f) = tname n"
  "tfile (set_file n f) = Some f"
  "tchildren (set_file n f) = tchildren n"
  by (simp_all add: kids_def with_children_def set_file_def)

lemma kids_fresh [simp]: "kids (TNode p None None) = []"
  by (simp add: kids_def)

lemma file_at_Nil [simp]: "file_at n [] = tfile n"
  by (simp add: file_at_def)

lemma file_at_Cons:
  "file_at n (q # qs) = (case map_of (kids n) q of None \<Rightarrow> None | Some c \<Rightarrow> file_at c qs)"
  by (simp add: file_at_def split: option.splits)

lemma file_at_fresh [simp]: "qs \<noteq> [] \<Longrightarrow> file_at (TNode p None None) qs = None"
  by (cases qs) (simp_all add: file_at_Cons)

lemma file_at_set_file:
  "file_at (set_file c f) qs = (if qs = [] then Some f else file_at c qs)"
  by (cases qs) (simp_all add: file_at_Cons)

lemma file_at_with_own_kids: "file_at (with_children n (kids n)) qs = file_at n qs"
  by (cases qs) (simp_all add: file_at_Cons)

lemma child_slot_Some:
  "child_slot cs p = Some c \<Longrightarrow>
     map_of cs p = Some c \<or> (map_of cs p = None \<and> p \<notin> set object_proto_names \<and> c = TNode p None None)"
  by (auto simp: child_slot_def split: option.splits if_splits)

lemma child_slot_None:
  "child_slot cs p = None \<longleftrightarrow> map_of cs p = None \<and> p \<in> set object_proto_names"
  by (auto simp: child_slot_def split: option.splits)

lemma wf_node_with_children:
  "wf_node (with_children n cs) \<longleftrightarrow>
     distinct (map fst cs)
     \<and> list_all (\<lambda>kc. tname (snd kc) = fst kc \<and> fst kc \<notin> set object_proto_names \<and> wf_node (snd kc)) cs"
  by (simp add: with_children_def)

lemma wf_node_kids:
  assumes "wf_node n" and "map_of (kids n) p = Some c"
  shows "wf_node c \<and> tname c = p \<and> p \<notin> set object_proto_names"
proof (cases n)
  case (TNode nm cs fo)
  with assms have "(p, c) \<in> set (kids n)" by (auto dest: map_of_SomeD)
  with assms TNode show ?thesis
    by (auto simp: kids_def list_all_iff split: option.splits)
qed

lemma wf_node_own_kids: "wf_node n \<Longrightarrow> wf_node (with_children n (kids n))"
  by (cases n) (auto simp: kids_def with_children_def split: option.splits)

lemma wf_node_set_file [simp]: "wf_node (set_file n f) = wf_node n"
  by (cases n) (simp add: set_file_def)

lemma wf_node_fresh: "wf_node (TNode p None None)"
  by simp

lemma list_all_prop_set:
  "list_all P cs \<Longrightarrow> P (k, v) \<Longrightarrow> list_all P (prop_set cs k v)"
  using prop_set_values [of cs k v] by (auto simp: list_all_iff)

lemma insert_parts_tname:
  "insert_parts f ps n = Some n' \<Longrightarrow> tname n' = tname n"
  by (cases ps) (auto split: option.splits if_splits)

lemma insert_parts_slot_name:
  assumes "wf_node n" and "child_slot (kids n) p = Some c"
  shows "tname c = p \<and> p \<notin> set object_proto_names \<and> wf_node c"
  using assms child_slot_Some [OF assms(2)] wf_node_kids [OF assms(1)] by auto

lemma insert_parts_wf:
  "insert_parts f ps n = Some n' \<Longrightarrow> wf_node n \<Longrightarrow> wf_node n'"
proof (induction ps arbitrary: n n')
  case Nil
  then show ?case by simp
next
  case (Cons p ps)
  show ?case
  proof (cases "child_slot (kids n) p")
    case None
    with Cons.prems show ?thesis by (auto simp: wf_node_own_kids split: if_splits)
  next
    case (Some c)
    from insert_parts_slot_name [OF Cons.prems(2) Some]
    have c: "tname c = p" "p \<notin> set object_proto_names" "wf_node c" by auto
    from Cons.prems(1) Some obtain c' where
      c': "(if ps = [] then Some (set_file c f) else insert_parts f ps c) = Some c'"
      and n': "n' = with_children n (prop_set (kids n) p c')"
      by auto
    have "tname c' = p \<and> wf_node c'"
    proof (cases "ps = []")
      case True
      with c c' show ?thesis by auto
    next
      case False
      with c' have "insert_parts f ps c = Some c'" by simp
      with c Cons.IH show ?thesis by (auto dest: insert_parts_tname)
    qed
    moreover have "wf_node (with_children n (kids n))"
      using Cons.prems(2) by (rule wf_node_own_kids)
    ultimately show ?thesis
      using c by (auto simp: n' wf_node_with_children intro: list_all_prop_set)
  qed
qed

lemma insert_parts_file_at:
  "insert_parts f ps n = Some n' \<Longrightarrow> wf_node n \<Longrightarrow> ps \<noteq> [] \<Longrightarrow>
   file_at n' qs = (if qs = ps \<and> tree_path ps then Some f else file_at n qs)"
proof (induction ps arbitrary: n n' qs)
  case Nil
  then show ?case by simp
next
  case (Cons p ps)
  show ?case
  proof (cases "child_slot (kids n) p")
    case None
    with Cons.prems have "n' = with_children n (kids n)" "\<not> tree_path (p # ps)"
      by (auto simp: child_slot_None tree_path_def split: if_splits)
    then show ?thesis by (simp add: file_at_with_own_kids)
  next
    case (Some c)
    from insert_parts_slot_name [OF Cons.prems(2) Some]
    have c: "tname c = p" "p \<notin> set object_proto_names" "wf_node c" by auto
    from Cons.prems(1) Some obtain c' where
      c': "(if ps = [] then Some (set_file c f) else insert_parts f ps c) = Some c'"
      and n': "n' = with_children n (prop_set (kids n) p c')"
      by auto
    have old: "file_at n (p # rs) = file_at c rs" for rs
      using child_slot_Some [OF Some] by (cases rs) (auto simp: file_at_Cons)
    have below: "file_at c' rs = (if rs = ps \<and> tree_path ps then Some f else file_at c rs)" for rs
    proof (cases "ps = []")
      case True
      with c' show ?thesis by (auto simp: file_at_set_file tree_path_def)
    next
      case False
      with c' have ins: "insert_parts f ps c = Some c'" by simp
      from ins c(3) False show ?thesis by (rule Cons.IH)
    qed
    show ?thesis
    proof (cases qs)
      case Nil
      then show ?thesis by (simp add: n')
    next
      case (Cons q rs)
      show ?thesis
      proof (cases "q = p")
        case True
        have "file_at n' qs = file_at c' rs" by (simp add: n' Cons True file_at_Cons)
        then show ?thesis
          using below old Cons True c(2) by (auto simp: tree_path_def)
      next
        case False
        then show ?thesis by (simp add: n' Cons file_at_Cons)
      qed
    qed
  qed
qed
lemma path_segments_not_Nil [simp]: "path_segments f \<noteq> []"
  by (simp add: path_segments_def)

lemma path_segments_eq_split: "path_segments f = js_split CHR ''/'' p \<longleftrightarrow> path f = p"
  by (metis path_segments_def js_join_split)

lemma path_segments_eq_iff: "path_segments f = path_segments g \<longleftrightarrow> path f = path g"
  by (metis path_segments_def path_segments_eq_split)

lemma distinct_path_segments: "distinct (map path fs) \<Longrightarrow> distinct (map path_segments fs)"
  by (induction fs) (auto simp: path_segments_eq_iff image_iff)

lemma proto_in_names: "''__proto__'' \<in> set object_proto_names"
  by (simp add: object_proto_names_def)

lemma insert_parts_None:
  "wf_node n \<Longrightarrow> insert_parts f ps n = None \<longleftrightarrow> ''__proto__'' \<in> set ps"
proof (induction ps arbitrary: n)
  case Nil
  then show ?case by simp
next
  case (Cons p ps)
  show ?case
  proof (cases "child_slot (kids n) p")
    case None
    then show ?thesis by simp
  next
    case (Some c)
    from insert_parts_slot_name [OF Cons.prems Some]
    have c: "p \<notin> set object_proto_names" "wf_node c" by auto
    with proto_in_names have "p \<noteq> ''__proto__''" by auto
    with Some c Cons.IH [OF c(2)] show ?thesis by auto
  qed
qed

lemma add_file_Some [simp]: "add_file (Some t) f = insert_parts f (path_segments f) t"
  by (simp add: add_file_def)

lemma add_file_None [simp]: "foldl add_file None fs = None"
  by (induction fs) (simp_all add: add_file_def)

lemma tree_spec_Cons:
  "tree_spec (f # fs) =
     (if tree_path (path_segments f) then [path_segments f \<mapsto> f] else Map.empty) ++ tree_spec fs"
  by (simp add: tree_spec_def)

lemma file_at_root [simp]: "file_at root_node = Map.empty"
proof
  fix qs show "file_at root_node qs = None"
    by (cases qs) (simp_all add: root_node_def file_at_Cons kids_def)
qed

lemma wf_root [simp]: "wf_node root_node"
  by (simp add: root_node_def)

lemma foldl_add_file:
  "wf_node t0 \<Longrightarrow>
   map_option file_at (foldl add_file (Some t0) fs)
     = (if list_ex (\<lambda>f. ''__proto__'' \<in> set (path_segments f)) fs then None
        else Some (file_at t0 ++ tree_spec fs))
   \<and> (\<forall>t. foldl add_file (Some t0) fs = Some t \<longrightarrow> wf_node t)"
proof (induction fs arbitrary: t0)
  case Nil
  then show ?case by (simp add: tree_spec_def)
next
  case (Cons f fs)
  show ?case
  proof (cases "insert_parts f (path_segments f) t0")
    case None
    moreover from None Cons.prems have "''__proto__'' \<in> set (path_segments f)"
      by (simp add: insert_parts_None)
    ultimately show ?thesis by simp
  next
    case (Some t1)
    with insert_parts_None [OF Cons.prems, of f "path_segments f"]
    have nop: "''__proto__'' \<notin> set (path_segments f)"
      by simp
    from Some Cons.prems have wf1: "wf_node t1" by (rule insert_parts_wf)
    have upd: "file_at t1 = file_at t0 ++
        (if tree_path (path_segments f) then [path_segments f \<mapsto> f] else Map.empty)"
      using insert_parts_file_at [OF Some Cons.prems path_segments_not_Nil]
      by (auto simp: fun_eq_iff map_add_def)
    show ?thesis
      using Cons.IH [OF wf1] Some nop upd by (simp add: tree_spec_Cons map_add_assoc)
  qed
qed

section \<open>Lemmas on directories\<close>

lemma add_file_from_None [simp]: "add_file None f = None"
  by (simp add: add_file_def)

lemma lookup_set_file:
  "lookup_node (set_file c f) qs = (if qs = [] then Some (set_file c f) else lookup_node c qs)"
  by (cases qs) simp_all

lemma is_dir_simps [simp]:
  "is_dir (with_children n cs)"
  "is_dir (set_file n f) = is_dir n"
  by (simp_all add: is_dir_def)

lemma insert_parts_keeps_dirs:
  "insert_parts f ps n = Some n' \<Longrightarrow> lookup_node n qs = Some d \<Longrightarrow> is_dir d \<Longrightarrow>
   \<exists>d'. lookup_node n' qs = Some d' \<and> is_dir d'"
proof (induction ps arbitrary: n n' qs d)
  case Nil
  then show ?case by auto
next
  case (Cons p ps)
  show ?case
  proof (cases "child_slot (kids n) p")
    case None
    with Cons.prems show ?thesis
      by (cases qs) (auto split: if_splits)
  next
    case (Some c)
    from Cons.prems(1) Some obtain c' where
      c': "(if ps = [] then Some (set_file c f) else insert_parts f ps c) = Some c'"
      and n': "n' = with_children n (prop_set (kids n) p c')"
      by auto
    show ?thesis
    proof (cases qs)
      case Nil
      then show ?thesis by (simp add: n')
    next
      case (Cons q rs)
      show ?thesis
      proof (cases "q = p")
        case False
        with Cons.prems(2,3) show ?thesis by (auto simp: n' Cons)
      next
        case True
        with Cons.prems(2) \<open>qs = q # rs\<close> child_slot_Some [OF Some]
        have old: "lookup_node c rs = Some d"
          by (auto split: option.splits)
        have "\<exists>d'. lookup_node c' rs = Some d' \<and> is_dir d'"
        proof (cases "ps = []")
          case True
          with c' old Cons.prems(3) show ?thesis
            by (auto simp: lookup_set_file)
        next
          case False
          with c' have "insert_parts f ps c = Some c'" by simp
          from Cons.IH [OF this old Cons.prems(3)] show ?thesis .
        qed
        with True show ?thesis by (simp add: n' \<open>qs = q # rs\<close>)
      qed
    qed
  qed
qed

lemma insert_parts_makes_dirs:
  "insert_parts f ps n = Some n' \<Longrightarrow> tree_path ps \<Longrightarrow> k < length ps \<Longrightarrow>
   \<exists>d. lookup_node n' (take k ps) = Some d \<and> is_dir d"
proof (induction ps arbitrary: n n' k)
  case Nil
  then show ?case by simp
next
  case (Cons p ps)
  from Cons.prems(2) have p: "p \<notin> set object_proto_names" and tp: "tree_path ps"
    by (simp_all add: tree_path_def)
  then obtain c where Some: "child_slot (kids n) p = Some c"
    by (cases "child_slot (kids n) p") (simp_all add: child_slot_None)
  from Cons.prems(1) Some obtain c' where
    c': "(if ps = [] then Some (set_file c f) else insert_parts f ps c) = Some c'"
    and n': "n' = with_children n (prop_set (kids n) p c')"
    by auto
  show ?case
  proof (cases k)
    case 0
    then show ?thesis by (simp add: n')
  next
    case (Suc k')
    with Cons.prems(3) have k': "k' < length ps" by simp
    then have "ps \<noteq> []" by auto
    with c' have "insert_parts f ps c = Some c'" by simp
    from Cons.IH [OF this tp k'] show ?thesis by (simp add: n' Suc)
  qed
qed

lemma foldl_add_file_keeps_dirs:
  "foldl add_file (Some t0) fs = Some t \<Longrightarrow> lookup_node t0 qs = Some d \<Longrightarrow> is_dir d \<Longrightarrow>
   \<exists>d'. lookup_node t qs = Some d' \<and> is_dir d'"
proof (induction fs arbitrary: t0 d)
  case Nil
  then show ?case by auto
next
  case (Cons f fs)
  show ?case
  proof (cases "insert_parts f (path_segments f) t0")
    case None
    with Cons.prems(1) show ?thesis by simp
  next
    case (Some t1)
    from insert_parts_keeps_dirs [OF Some Cons.prems(2,3)] obtain d1 where
      "lookup_node t1 qs = Some d1" "is_dir d1" by blast
    with Cons.IH [of t1] Cons.prems(1) Some show ?thesis by simp
  qed
qed

section \<open>Lemmas on node types and height\<close>

lemma typed_node_parts: "typed_node F n \<Longrightarrow> typed_parts F n"
  by (cases n) (auto simp: typed_parts_def kids_def split: option.splits)

lemma typed_node_with_children [simp]:
  "typed_node F (with_children n ks) \<longleftrightarrow>
     pred_option (\<lambda>f. f \<in> F \<and> last (path_segments f) = tname n) (tfile n)
     \<and> list_all (\<lambda>kc. typed_node F (snd kc)) ks"
  by (cases n) (simp add: with_children_def)

lemma typed_node_set_file:
  "typed_parts F c \<Longrightarrow> f \<in> F \<Longrightarrow> last (path_segments f) = tname c \<Longrightarrow> typed_node F (set_file c f)"
  by (cases c) (auto simp: typed_parts_def set_file_def kids_def split: option.splits)

lemma insert_parts_typed:
  "insert_parts f ps n = Some n' \<Longrightarrow> wf_node n \<Longrightarrow> typed_parts F n \<Longrightarrow> ps \<noteq> [] \<Longrightarrow>
   f \<in> F \<Longrightarrow> last ps = last (path_segments f) \<Longrightarrow> typed_node F n'"
proof (induction ps arbitrary: n n')
  case Nil
  then show ?case by simp
next
  case (Cons p ps)
  have own: "pred_option (\<lambda>g. g \<in> F \<and> last (path_segments g) = tname n) (tfile n)"
    and ks: "list_all (\<lambda>kc. typed_node F (snd kc)) (kids n)"
    using Cons.prems(3) by (simp_all add: typed_parts_def)
  show ?case
  proof (cases "child_slot (kids n) p")
    case None
    with Cons.prems(1) have "n' = with_children n (kids n)" by (simp split: if_splits)
    with own ks show ?thesis by simp
  next
    case (Some c)
    from insert_parts_slot_name [OF Cons.prems(2) Some]
    have c: "tname c = p" "wf_node c" by auto
    have tc: "typed_parts F c"
    proof (cases "map_of (kids n) p")
      case None
      with Some show ?thesis
        by (auto simp: child_slot_def typed_parts_def split: if_splits)
    next
      case (Some c0)
      with child_slot_Some [OF \<open>child_slot (kids n) p = Some c\<close>] have "(p, c) \<in> set (kids n)"
        by (auto dest: map_of_SomeD)
      with ks have "typed_node F c" by (auto simp: list_all_iff)
      then show ?thesis by (rule typed_node_parts)
    qed
    from Cons.prems(1) Some obtain c' where
      c': "(if ps = [] then Some (set_file c f) else insert_parts f ps c) = Some c'"
      and n': "n' = with_children n (prop_set (kids n) p c')"
      by auto
    have "typed_node F c'"
    proof (cases "ps = []")
      case True
      with c' c tc Cons.prems(5,6) show ?thesis by (auto intro: typed_node_set_file)
    next
      case False
      with c' have "insert_parts f ps c = Some c'" by simp
      with Cons.IH c tc False Cons.prems(5,6) show ?thesis by simp
    qed
    with own ks n' show ?thesis by (simp add: list_all_prop_set)
  qed
qed
lemma height_with_children [simp]:
  "height (with_children n ks) = Suc (foldr max (map (\<lambda>kc. height (snd kc)) ks) 0)"
  by (cases n) (simp add: with_children_def)

lemma height_set_file [simp]: "height (set_file n f) = height n"
  by (cases n) (simp add: set_file_def)

lemma height_mem_le:
  "(k, c) \<in> set ks \<Longrightarrow> height c \<le> foldr max (map (\<lambda>kc. height (snd kc)) ks) 0"
  by (induction ks) auto

lemma height_kid: "(k, c) \<in> set (kids n) \<Longrightarrow> Suc (height c) \<le> height n"
proof (cases n)
  case (TNode nm cs fo)
  assume "(k, c) \<in> set (kids n)"
  then show ?thesis using TNode
    by (auto simp: kids_def split: option.splits dest: height_mem_le)
qed

lemma insert_parts_height:
  "insert_parts f ps n = Some n' \<Longrightarrow> ps \<noteq> [] \<Longrightarrow> height n' \<le> max (height n) (length ps)"
proof (induction ps arbitrary: n n')
  case Nil
  then show ?case by simp
next
  case (Cons p ps)
  have old: "list_all (\<lambda>kc. height (snd kc) \<le> height n - 1) (kids n)"
    using height_kid by (fastforce simp: list_all_iff)
  show ?case
  proof (cases "child_slot (kids n) p")
    case None
    with Cons.prems(1) have "n' = with_children n (kids n)" by (simp split: if_splits)
    moreover from old have "foldr max (map (\<lambda>kc. height (snd kc)) (kids n)) 0 \<le> height n - 1"
      by (simp add: list_all_iff)
    ultimately show ?thesis by (simp add: Suc_le_max_pred del: foldr_max_le_iff)
  next
    case (Some c)
    have hc: "height c \<le> height n - 1"
    proof (cases "map_of (kids n) p")
      case None
      with Some show ?thesis by (auto simp: child_slot_def split: if_splits)
    next
      case (Some c0)
      with child_slot_Some [OF \<open>child_slot (kids n) p = Some c\<close>] have "(p, c) \<in> set (kids n)"
        by (auto dest: map_of_SomeD)
      with height_kid show ?thesis by fastforce
    qed
    from Cons.prems(1) Some obtain c' where
      c': "(if ps = [] then Some (set_file c f) else insert_parts f ps c) = Some c'"
      and n': "n' = with_children n (prop_set (kids n) p c')"
      by auto
    have "height c' \<le> max (height c) (length ps)"
      using c' Cons.IH by (cases "ps = []") auto
    with hc have "height c' \<le> max (height n - 1) (length ps)" by simp
    moreover have "list_all (\<lambda>kc. height (snd kc) \<le> max (height n - 1) (length ps)) (kids n)"
      using old by (auto simp: list_all_iff)
    ultimately have "list_all (\<lambda>kc. height (snd kc) \<le> max (height n - 1) (length ps)) (prop_set (kids n) p c')"
      by (simp add: list_all_prop_set)
    then have "foldr max (map (\<lambda>kc. height (snd kc)) (prop_set (kids n) p c')) 0
                 \<le> max (height n - 1) (length ps)"
      by (simp add: list_all_iff)
    then show ?thesis by (simp add: n' Suc_le_max_pred del: foldr_max_le_iff)
  qed
qed

lemma foldl_add_file_height:
  "foldl add_file (Some t0) fs = Some t \<Longrightarrow>
   height t \<le> max (height t0) (foldr max (map (\<lambda>f. length (path_segments f)) fs) 0)"
proof (induction fs arbitrary: t0)
  case Nil
  then show ?case by simp
next
  case (Cons f fs)
  then obtain t1 where t1: "insert_parts f (path_segments f) t0 = Some t1"
    by (cases "insert_parts f (path_segments f) t0") auto
  with Cons.prems have "foldl add_file (Some t1) fs = Some t" by simp
  with Cons.IH have "height t \<le> max (height t1) (foldr max (map (\<lambda>f. length (path_segments f)) fs) 0)" .
  moreover have "height t1 \<le> max (height t0) (length (path_segments f))"
    by (rule insert_parts_height [OF t1 path_segments_not_Nil])
  ultimately show ?case by simp
qed

lemma typed_root [simp]: "typed_node F root_node"
  by (simp add: root_node_def)

lemma foldl_add_file_typed:
  "foldl add_file (Some t0) fs = Some t \<Longrightarrow> wf_node t0 \<Longrightarrow> typed_node F t0 \<Longrightarrow> set fs \<subseteq> F \<Longrightarrow>
   typed_node F t"
proof (induction fs arbitrary: t0)
  case Nil
  then show ?case by simp
next
  case (Cons f fs)
  then obtain t1 where t1: "insert_parts f (path_segments f) t0 = Some t1"
    by (cases "insert_parts f (path_segments f) t0") auto
  have "typed_node F t1"
    using insert_parts_typed [OF t1 Cons.prems(2) typed_node_parts [OF Cons.prems(3)] path_segments_not_Nil]
          Cons.prems(4) by simp
  moreover have "wf_node t1" using t1 Cons.prems(2) by (rule insert_parts_wf)
  ultimately show ?case using Cons t1 by simp
qed

lemma height_root [simp]: "height root_node = 1"
  by (simp add: root_node_def)

lemma foldr_max_segments: "fs \<noteq> [] \<Longrightarrow> 1 \<le> foldr max (map (\<lambda>f. length (path_segments f)) fs) 0"
  by (cases fs) (auto simp: le_max_iff_disj Suc_le_eq)

lemmas tree_eval = buildFileTree_def add_file_def root_node_def child_slot_def kids_def
  with_children_def set_file_def object_proto_names_def path_segments_def

section \<open>Properties of buildFileTree\<close>

text \<open>
  C1: \<open>buildFileTree\<close> refines a last-write-wins map from segment lists to files:
  unless some path has a \<open>__proto__\<close> segment (when the walk writes into
  \<open>Object.prototype\<close>), the file found at a list of segments is the last file of the
  list with that path, among those whose segments avoid inherited property names.
\<close>

theorem buildFileTree_abs:
  "map_option file_at (buildFileTree fs) =
     (if list_ex (\<lambda>f. ''__proto__'' \<in> set (path_segments f)) fs then None else Some (tree_spec fs))"
  using foldl_add_file [OF wf_root, of fs] by (simp add: buildFileTree_def)

text \<open>
  C2: every tree \<open>buildFileTree\<close> returns is well formed: in every directory the keys
  are distinct, each child is named by its key, and no key is an inherited name.
\<close>

theorem buildFileTree_wf: "buildFileTree fs = Some t \<Longrightarrow> wf_node t"
  using foldl_add_file [OF wf_root, of fs] by (simp add: buildFileTree_def)

theorem buildFileTree_wf_witness:
  "\<exists>t. buildFileTree [\<lparr>path = ''nginx/tasks/main.yml'', content = JStr ''x''\<rparr>] = Some t \<and> wf_node t"
proof -
  have "buildFileTree [\<lparr>path = ''nginx/tasks/main.yml'', content = JStr ''x''\<rparr>] =
    Some (TNode ''root'' (Some [(''nginx'', TNode ''nginx'' (Some [(''tasks'', TNode ''tasks''
      (Some [(''main.yml'', TNode ''main.yml'' None
        (Some \<lparr>path = ''nginx/tasks/main.yml'', content = JStr ''x''\<rparr>))]) None)]) None)]) None)"
    by (simp add: tree_eval)
  then show ?thesis using buildFileTree_wf by blast
qed

text \<open>
  C3: every node of a built tree has the node type of the specification: it is a
  directory or a file node, and a file node holds one of the input files, whose last
  path segment is the node's name.
\<close>

theorem buildFileTree_typed: "buildFileTree fs = Some t \<Longrightarrow> typed_node (set fs) t"
  unfolding buildFileTree_def using foldl_add_file_typed [OF _ wf_root typed_root] by blast

theorem buildFileTree_typed_witness:
  "\<exists>t. buildFileTree [\<lparr>path = ''a/b'', content = JStr ''x''\<rparr>] = Some t
     \<and> typed_node (set [\<lparr>path = ''a/b'', content = JStr ''x''\<rparr>]) t"
proof -
  have "buildFileTree [\<lparr>path = ''a/b'', content = JStr ''x''\<rparr>] =
    Some (TNode ''root'' (Some [(''a'', TNode ''a'' (Some [(''b'', TNode ''b'' None
        (Some \<lparr>path = ''a/b'', content = JStr ''x''\<rparr>))]) None)]) None)"
    by (simp add: tree_eval)
  then show ?thesis using buildFileTree_typed by blast
qed

text \<open>
  C16: every proper prefix of the segments of a stored path leads to a directory node,
  and later insertions never turn a directory back into a file node.
\<close>

theorem buildFileTree_dirs:
  assumes "buildFileTree fs = Some t" and "f \<in> set fs" and "tree_path (path_segments f)"
    and "k < length (path_segments f)"
  shows "\<exists>d. lookup_node t (take k (path_segments f)) = Some d \<and> is_dir d"
proof -
  from assms(2) obtain xs ys where fs: "fs = xs @ f # ys" by (meson split_list)
  have "foldl add_file (foldl add_file (Some root_node) xs) (f # ys) = Some t"
    using assms(1) by (simp add: buildFileTree_def fs)
  then obtain t1 where t1: "foldl add_file (Some root_node) xs = Some t1"
    by (cases "foldl add_file (Some root_node) xs") simp_all
  with \<open>foldl add_file (foldl add_file (Some root_node) xs) (f # ys) = Some t\<close>
  obtain t2 where t2: "insert_parts f (path_segments f) t1 = Some t2"
    and rest: "foldl add_file (Some t2) ys = Some t"
    by (cases "insert_parts f (path_segments f) t1") simp_all
  from insert_parts_makes_dirs [OF t2 assms(3,4)] obtain d where
    "lookup_node t2 (take k (path_segments f)) = Some d" "is_dir d" by blast
  from foldl_add_file_keeps_dirs [OF rest this] show ?thesis .
qed

theorem buildFileTree_dirs_witness:
  "\<exists>d. lookup_node (the (buildFileTree [\<lparr>path = ''a/b/c.txt'', content = JStr ''x''\<rparr>])) (take 2 [''a'', ''b'', ''c.txt'']) = Some d \<and> is_dir d"
proof -
  have b: "buildFileTree [\<lparr>path = ''a/b/c.txt'', content = JStr ''x''\<rparr>] =
      Some (the (buildFileTree [\<lparr>path = ''a/b/c.txt'', content = JStr ''x''\<rparr>]))"
    by (simp add: tree_eval)
  have s: "path_segments \<lparr>path = ''a/b/c.txt'', content = JStr ''x''\<rparr> = [''a'', ''b'', ''c.txt'']"
    by (simp add: path_segments_def)
  show ?thesis
    using buildFileTree_dirs [OF b, of "\<lparr>path = ''a/b/c.txt'', content = JStr ''x''\<rparr>" 2]
    by (simp add: s tree_path_def object_proto_names_def)
qed

end
