(* ===== verification/TreeView.thy ===== *)
theory TreeView
  imports FileTree
begin

text \<open>
  The \<open>FileTree\<close> component of \<open>src/components/CodeDisplay.tsx\<close>: the rows it
  renders for a tree built by \<open>buildFileTree\<close>, and the tree panel of
  \<open>CodeDisplay\<close>, which renders the root's children.  The lemmas give the shape
  of the rows (one row per node, in pre-order), the order of the children, and the
  rows of a built tree.
\<close>

section \<open>Rendering\<close>

text \<open>
  One rendered line of the \<open>FileTree\<close> component: a folder (name, no click handler)
  or a file (name, whether it is highlighted as selected, the file its click selects).
  \<open>level\<close> is the component's \<open>level\<close> prop.
\<close>

datatype row =
    FolderRow (row_level: nat) (row_name: string)
  | FileRow (row_level: nat) (row_name: string) (row_selected: bool) (row_click: "gfile option")

text \<open>
  \<open>FileTree\<close>: a node with \<open>children\<close> is a directory; its children are listed
  from \<open>Object.values\<close> and sorted by \<open>a.name.localeCompare(b.name)\<close>.  The
  collation is a parameter \<open>key\<close>: \<open>localeCompare\<close> orders strings by their
  collation keys, and \<open>Array.prototype.sort\<close> is stable, as \<open>sort_key\<close> is.
\<close>

function render_node :: "(string \<Rightarrow> 'k::linorder) \<Rightarrow> string \<Rightarrow> nat \<Rightarrow> tnode \<Rightarrow> row list" where
  "render_node key sel level (TNode nm cs fo) =
     (case cs of
        Some ks \<Rightarrow> FolderRow level nm #
          concat (map (render_node key sel (Suc level))
                    (sort_key (\<lambda>c. key (tname c)) (map snd (own_keys ks))))
      | None \<Rightarrow> [FileRow level nm (map_option path fo = Some sel) fo])"
  by pat_completeness auto
termination
proof (relation "measure (\<lambda>(key, sel, level, n). size n)")
  fix key :: "string \<Rightarrow> 'k::linorder" and sel level nm cs fo ks x
  assume "cs = Some ks" and x: "x \<in> set (sort_key (\<lambda>c. key (tname c)) (map snd (own_keys ks)))"
  then obtain k where "(k, x) \<in> set ks" by auto
  then have "size x < Suc (size_list (size_prod (\<lambda>x. 0) size) ks)"
    by (induction ks) auto
  then show "((key, sel, Suc level, x), key, sel, level, TNode nm cs fo)
        \<in> measure (\<lambda>(key, sel, level, n). size n)"
    using \<open>cs = Some ks\<close> by simp
qed simp

text \<open>
  The tree panel of \<open>CodeDisplay\<close>: the root's children in \<open>Object.values\<close>
  order, each rendered at level 0, without sorting.
\<close>

definition render_tree :: "(string \<Rightarrow> 'k::linorder) \<Rightarrow> string \<Rightarrow> tnode \<Rightarrow> row list" where
  "render_tree key sel t =
     (case tchildren t of
        None \<Rightarrow> []
      | Some ks \<Rightarrow> concat (map (render_node key sel 0) (map snd (own_keys ks))))"

text \<open>The names of the rendered rows at one level, in order.\<close>

definition level_names :: "nat \<Rightarrow> row list \<Rightarrow> string list" where
  "level_names l rows = map row_name (filter (\<lambda>r. row_level r = l) rows)"

text \<open>
  A rendered row whose click handler selects one of the files \<open>F\<close>, named by the
  last segment of its path; folder rows have no click handler.
\<close>

definition row_file_ok :: "gfile set \<Rightarrow> row \<Rightarrow> bool" where
  "row_file_ok F r =
     (case r of
        FolderRow l nm \<Rightarrow> True
      | FileRow l nm b c \<Rightarrow> (\<exists>f\<in>F. c = Some f \<and> last (path_segments f) = nm))"

section \<open>Lemmas on rendering\<close>

lemma render_node_shape:
  "render_node key sel l n \<noteq> []
   \<and> row_level (hd (render_node key sel l n)) = l
   \<and> row_name (hd (render_node key sel l n)) = tname n
   \<and> list_all (\<lambda>r. l < row_level r) (tl (render_node key sel l n))"
proof (induction key sel l n rule: render_node.induct)
  case (1 key sel level nm cs fo)
  show ?case
  proof (cases cs)
    case None
    then show ?thesis by simp
  next
    case (Some ks)
    have "list_all (\<lambda>r. level < row_level r) (render_node key sel (Suc level) c)"
      if "c \<in> set (sort_key (\<lambda>c. key (tname c)) (map snd (own_keys ks)))" for c
    proof -
      from "1.IH" [OF Some that] have
        "render_node key sel (Suc level) c \<noteq> []"
        "row_level (hd (render_node key sel (Suc level) c)) = Suc level"
        "list_all (\<lambda>r. Suc level < row_level r) (tl (render_node key sel (Suc level) c))"
        by simp_all
      then show ?thesis
        by (cases "render_node key sel (Suc level) c") (auto simp: list_all_iff)
    qed
    with Some show ?thesis by (auto simp: list_all_iff)
  qed
qed

lemma level_names_render_node: "level_names l (render_node key sel l n) = [tname n]"
proof -
  from render_node_shape [of key sel l n] obtain r rs where
    "render_node key sel l n = r # rs" "row_level r = l" "row_name r = tname n"
    "list_all (\<lambda>r. l < row_level r) rs"
    by (cases "render_node key sel l n") auto
  then show ?thesis by (auto simp: level_names_def list_all_iff filter_empty_conv)
qed

lemma level_names_concat:
  "level_names l (concat (map (render_node key sel l) cs)) = map tname cs"
  by (induction cs) (simp_all add: level_names_def level_names_render_node [unfolded level_names_def])

lemma render_node_typed:
  "typed_node F n \<Longrightarrow> list_all (row_file_ok F) (render_node key sel l n)"
proof (induction key sel l n rule: render_node.induct)
  case (1 key sel level nm cs fo)
  show ?case
  proof (cases cs)
    case None
    with "1.prems" show ?thesis by (auto simp: row_file_ok_def pred_option_def)
  next
    case (Some ks)
    with "1.prems" have "list_all (\<lambda>kc. typed_node F (snd kc)) ks" by simp
    then have "typed_node F c" if "c \<in> set (map snd (own_keys ks))" for c
      using that by (auto simp: list_all_iff set_own_keys)
    with "1.IH" [OF Some] Some show ?thesis
      by (auto simp: list_all_iff row_file_ok_def)
  qed
qed

lemma render_node_levels:
  "list_all (\<lambda>r. row_level r \<le> l + height n) (render_node key sel l n)"
proof (induction key sel l n rule: render_node.induct)
  case (1 key sel level nm cs fo)
  show ?case
  proof (cases cs)
    case None
    then show ?thesis by simp
  next
    case (Some ks)
    have "Suc (height c) \<le> height (TNode nm cs fo)" if "c \<in> set (map snd (own_keys ks))" for c
      using that Some by (auto simp: set_own_keys dest: height_mem_le)
    with "1.IH" [OF Some] Some show ?thesis
      by (fastforce simp: list_all_iff)
  qed
qed
lemma render_children_typed:
  assumes "list_all (\<lambda>kc. typed_node F (snd kc)) ks"
  shows "list_all (row_file_ok F) (concat (map (render_node key sel l) (map snd (own_keys ks))))"
proof -
  have "typed_node F c" if "c \<in> set (map snd (own_keys ks))" for c
    using that assms by (auto simp: list_all_iff set_own_keys)
  then have "list_all (row_file_ok F) (render_node key sel l c)" if "c \<in> set (map snd (own_keys ks))" for c
    using that render_node_typed by blast
  then show ?thesis by (auto simp: list_all_iff)
qed

lemma wf_kid_names: "wf_node t \<Longrightarrow> list_all (\<lambda>kc. tname (snd kc) = fst kc) (kids t)"
  by (cases t) (auto simp: kids_def list_all_iff split: option.splits)

section \<open>Properties of the rendering\<close>

text \<open>
  C15: inside a folder, the rows one level deeper are the folder's children, each once,
  in the order of the collation key (a stable sort of \<open>Object.values\<close>).
\<close>

theorem render_node_children_sorted:
  "level_names (Suc l) (render_node key sel l (TNode nm (Some ks) fo))
     = map tname (sort_key (\<lambda>c. key (tname c)) (map snd (own_keys ks)))
   \<and> sorted (map key (level_names (Suc l) (render_node key sel l (TNode nm (Some ks) fo))))
   \<and> mset (level_names (Suc l) (render_node key sel l (TNode nm (Some ks) fo))) = mset (map (tname \<circ> snd) ks)"
proof -
  have eq: "level_names (Suc l) (render_node key sel l (TNode nm (Some ks) fo))
     = map tname (sort_key (\<lambda>c. key (tname c)) (map snd (own_keys ks)))"
    by (simp add: level_names_concat [unfolded level_names_def] level_names_def)
  moreover have "sorted (map key (map tname (sort_key (\<lambda>c. key (tname c)) (map snd (own_keys ks)))))"
    by (simp add: comp_def sorted_sort_key [of "\<lambda>c. key (tname c)", unfolded comp_def] )
  moreover have "mset (map tname (sort_key (\<lambda>c. key (tname c)) (map snd (own_keys ks)))) = mset (map (tname \<circ> snd) ks)"
    by (simp add: mset_map mset_own_keys multiset.map_comp)
  ultimately show ?thesis by simp
qed

text \<open>
  C24: the top level of the tree panel is not sorted: for every built tree and every
  collation, the rows at level 0 are the root's keys in \<open>Object.keys\<close> order
  (insertion order, array indices first), unlike every folder below it (C17).
\<close>

theorem render_tree_top_unsorted:
  "buildFileTree fs = Some t \<Longrightarrow>
   level_names 0 (render_tree key sel t) = map fst (own_keys (kids t))"
proof -
  assume b: "buildFileTree fs = Some t"
  have "wf_node t" using foldl_add_file [OF wf_root, of fs] b by (simp add: buildFileTree_def)
  then have names: "list_all (\<lambda>kc. tname (snd kc) = fst kc) (own_keys (kids t))"
    using wf_kid_names by (simp add: list_all_iff set_own_keys)
  have "level_names 0 (render_tree key sel t) = map tname (map snd (own_keys (kids t)))"
  proof (cases "tchildren t")
    case None
    then show ?thesis by (simp add: render_tree_def kids_def level_names_def own_keys_def)
  next
    case (Some ks)
    then show ?thesis
      using level_names_concat [of 0 key sel "map snd (own_keys ks)"]
      by (simp add: render_tree_def kids_def del: map_map)
  qed
  also have "\<dots> = map fst (own_keys (kids t))"
    using names by (induction "own_keys (kids t)") (simp_all add: list_all_iff)
  finally show ?thesis .
qed

theorem render_tree_top_unsorted_witness:
  "buildFileTree [\<lparr>path = ''b/x'', content = JStr ''1''\<rparr>, \<lparr>path = ''a/y'', content = JStr ''2''\<rparr>]
     = Some (TNode ''root'' (Some
         [(''b'', TNode ''b'' (Some [(''x'', TNode ''x'' None (Some \<lparr>path = ''b/x'', content = JStr ''1''\<rparr>))]) None),
          (''a'', TNode ''a'' (Some [(''y'', TNode ''y'' None (Some \<lparr>path = ''a/y'', content = JStr ''2''\<rparr>))]) None)]) None)
   \<and> level_names 0 (render_tree id '''' (TNode ''root'' (Some
         [(''b'', TNode ''b'' (Some [(''x'', TNode ''x'' None (Some \<lparr>path = ''b/x'', content = JStr ''1''\<rparr>))]) None),
          (''a'', TNode ''a'' (Some [(''y'', TNode ''y'' None (Some \<lparr>path = ''a/y'', content = JStr ''2''\<rparr>))]) None)]) None))
     = [''b'', ''a'']"
proof -
  have b: "buildFileTree [\<lparr>path = ''b/x'', content = JStr ''1''\<rparr>, \<lparr>path = ''a/y'', content = JStr ''2''\<rparr>]
     = Some (TNode ''root'' (Some
         [(''b'', TNode ''b'' (Some [(''x'', TNode ''x'' None (Some \<lparr>path = ''b/x'', content = JStr ''1''\<rparr>))]) None),
          (''a'', TNode ''a'' (Some [(''y'', TNode ''y'' None (Some \<lparr>path = ''a/y'', content = JStr ''2''\<rparr>))]) None)]) None)"
    by (simp add: tree_eval)
  show ?thesis
    using b render_tree_top_unsorted [OF b, of id "''''"] by (simp add: kids_def js_eval)
qed

text \<open>
  C14: in the tree panel every row of a built tree that is not a folder is a file row
  whose click handler selects one of the generated files, named by the row: no file
  row is inert, and no click selects a file outside the list.
\<close>

theorem render_tree_rows_clickable:
  "buildFileTree fs = Some t \<Longrightarrow> list_all (row_file_ok (set fs)) (render_tree key sel t)"
proof -
  assume b: "buildFileTree fs = Some t"
  have "typed_node (set fs) t"
    using b foldl_add_file_typed [OF _ wf_root typed_root] by (simp add: buildFileTree_def)
  then have "list_all (\<lambda>kc. typed_node (set fs) (snd kc)) (kids t)"
    by (auto dest: typed_node_parts simp: typed_parts_def)
  then show ?thesis
    by (cases "tchildren t") (simp_all add: render_tree_def kids_def render_children_typed [unfolded map_map])
qed

theorem render_tree_rows_clickable_witness:
  "buildFileTree [\<lparr>path = ''a/b'', content = JStr ''x''\<rparr>] = Some (TNode ''root'' (Some [(''a'', TNode ''a'' (Some [(''b'', TNode ''b'' None
        (Some \<lparr>path = ''a/b'', content = JStr ''x''\<rparr>))]) None)]) None)
   \<and> list_all (row_file_ok (set [\<lparr>path = ''a/b'', content = JStr ''x''\<rparr>]))
       (render_tree id '''' (TNode ''root'' (Some [(''a'', TNode ''a'' (Some [(''b'', TNode ''b'' None
        (Some \<lparr>path = ''a/b'', content = JStr ''x''\<rparr>))]) None)]) None))"
proof -
  have b: "buildFileTree [\<lparr>path = ''a/b'', content = JStr ''x''\<rparr>] = Some (TNode ''root'' (Some [(''a'', TNode ''a'' (Some [(''b'', TNode ''b'' None
        (Some \<lparr>path = ''a/b'', content = JStr ''x''\<rparr>))]) None)]) None)"
    by (simp add: tree_eval)
  show ?thesis using b render_tree_rows_clickable [OF b, of id "''''"] by simp
qed

text \<open>
  C17: the indentation of the tree panel is bounded: a row's level is less than the
  number of segments of the longest generated path.
\<close>

theorem render_tree_level_bound:
  assumes "buildFileTree fs = Some t" and "r \<in> set (render_tree key sel t)"
  shows "Suc (row_level r) \<le> foldr max (map (\<lambda>f. length (path_segments f)) fs) 0"
proof -
  obtain ks where ks: "tchildren t = Some ks"
    and r: "r \<in> set (concat (map (render_node key sel 0) (map snd (own_keys ks))))"
    using assms(2) by (cases "tchildren t") (auto simp: render_tree_def)
  from r obtain k c where kc: "(k, c) \<in> set ks" and rc: "r \<in> set (render_node key sel 0 c)"
    by (auto simp: set_own_keys)
  have "row_level r \<le> height c"
    using render_node_levels [of 0 c key sel] rc by (simp add: list_all_iff)
  moreover have "Suc (height c) \<le> height t"
    using kc ks by (intro height_kid [of k]) (simp add: kids_def)
  moreover have "fs \<noteq> []"
    using assms ks by (auto simp: buildFileTree_def render_tree_def root_node_def)
  moreover have "height t \<le> max 1 (foldr max (map (\<lambda>f. length (path_segments f)) fs) 0)"
    using foldl_add_file_height [of root_node fs t] assms(1) by (simp add: buildFileTree_def)
  ultimately show ?thesis using foldr_max_segments [of fs] by simp
qed

theorem render_tree_level_bound_witness:
  "buildFileTree [\<lparr>path = ''a/b'', content = JStr ''x''\<rparr>] = Some (TNode ''root'' (Some [(''a'', TNode ''a'' (Some [(''b'', TNode ''b'' None
        (Some \<lparr>path = ''a/b'', content = JStr ''x''\<rparr>))]) None)]) None)
   \<and> FileRow 1 ''b'' False (Some \<lparr>path = ''a/b'', content = JStr ''x''\<rparr>)
       \<in> set (render_tree id '''' (TNode ''root'' (Some [(''a'', TNode ''a'' (Some [(''b'', TNode ''b'' None
        (Some \<lparr>path = ''a/b'', content = JStr ''x''\<rparr>))]) None)]) None))
   \<and> Suc (row_level (FileRow 1 ''b'' False (Some \<lparr>path = ''a/b'', content = JStr ''x''\<rparr>)))
       \<le> foldr max (map (\<lambda>f. length (path_segments f)) [\<lparr>path = ''a/b'', content = JStr ''x''\<rparr>]) 0"
proof -
  have b: "buildFileTree [\<lparr>path = ''a/b'', content = JStr ''x''\<rparr>] = Some (TNode ''root'' (Some [(''a'', TNode ''a'' (Some [(''b'', TNode ''b'' None
        (Some \<lparr>path = ''a/b'', content = JStr ''x''\<rparr>))]) None)]) None)"
    by (simp add: tree_eval)
  have r: "FileRow 1 ''b'' False (Some \<lparr>path = ''a/b'', content = JStr ''x''\<rparr>)
       \<in> set (render_tree id '''' (TNode ''root'' (Some [(''a'', TNode ''a'' (Some [(''b'', TNode ''b'' None
        (Some \<lparr>path = ''a/b'', content = JStr ''x''\<rparr>))]) None)]) None))"
    by (simp add: render_tree_def js_eval)
  show ?thesis using b r render_tree_level_bound [OF b r] by simp
qed

end
