(* ===== verification/Prompt.thy ===== *)
theory Prompt
  imports Prelude
begin

text \<open>
  \<open>buildPrompt\<close> of \<open>src/services/geminiService.ts\<close>: a template literal that embeds
  the user's description between two \<open>---\<close> delimiter lines, after fixed role-playing
  text and before the fixed instructions on the directory layout and the output format
  (one JSON object from file paths to file contents).  The template is written here
  line by line as in the source; \<open>\`\<close> escapes are unescaped.
\<close>

definition lf :: char where
  "lf = CHR 0x0A"

definition prompt_head_lines :: "string list" where
  "prompt_head_lines =
     [''    Act as a senior DevOps engineer specializing in Ansible automation.'',
      ''    Your task is to generate a complete and professional Ansible role based on the user's request.'',
      '''',
      ''    **User's Request:**'',
      ''    ---'']"

definition prompt_tail_lines :: "string list" where
  "prompt_tail_lines =
     [''    ---'',
      '''',
      ''    **Instructions:**'',
      ''    1.  Infer the role name from the user's request (e.g., 'nginx', 'docker', 'mysql'). If it's complex, use a descriptive name. The role name should be the top-level directory.'',
      ''    2.  Create a standard Ansible role directory structure.'',
      ''    3.  Generate the content for all necessary files, including:'',
      ''        - `defaults/main.yml`: For default variables.'',
      ''        - `vars/main.yml`: For non-overridable variables if needed.'',
      ''        - `tasks/main.yml`: The main entry point for tasks. Break down complex logic into separate, included task files (e.g., `tasks/install.yml`, `tasks/configure.yml`).'',
      ''        - `handlers/main.yml`: For service restarts and other handlers.'',
      ''        - `templates/...`: Any necessary template files (e.g., configuration files, virtual hosts). Use the .j2 extension.'',
      ''        - `meta/main.yml`: Role metadata, including dependencies if any can be inferred.'',
      ''    4.  Ensure all YAML is valid and all Ansible modules are used correctly.'',
      ''    5.  The code should be well-commented and follow Ansible best practices.'',
      '''',
      ''    **Output Format:**'',
      ''    Return a single, valid JSON object. The keys must be the full file paths (e.g., 'rolename/tasks/main.yml'), and the values must be the complete content of each file as a string. Do not include any explanations, markdown formatting, or code fences outside of the JSON object. The entire response must be only the JSON object itself.'']"

definition template_lines :: "string list \<Rightarrow> string" where
  "template_lines ls = concat (map (\<lambda>l. l @ [lf]) ls)"

text \<open>The template text before \<open>${description}\<close> and after it.\<close>

definition prompt_prefix :: string where
  "prompt_prefix = lf # template_lines prompt_head_lines @ ''    ''"

definition prompt_suffix :: string where
  "prompt_suffix = lf # template_lines prompt_tail_lines @ ''    ''"

definition buildPrompt :: "string \<Rightarrow> string" where
  "buildPrompt description = prompt_prefix @ description @ prompt_suffix"

section \<open>Lemmas\<close>

lemma prompt_prefix_ends: "\<exists>p0. prompt_prefix = p0 @ ''---'' @ lf # ''    ''"
  by (simp add: prompt_prefix_def template_lines_def prompt_head_lines_def)

lemma prompt_suffix_starts: "\<exists>s0. prompt_suffix = lf # ''    ---'' @ s0"
  by (simp add: prompt_suffix_def template_lines_def prompt_tail_lines_def)

section \<open>Properties of the prompt\<close>

text \<open>
  C9: every prompt is the same fixed text with the description inserted verbatim
  between the line that ends with the opening \<open>---\<close> delimiter and the line of the
  closing one.
\<close>

theorem buildPrompt_embeds:
  "\<exists>a b. \<forall>d. buildPrompt d = a @ ''---'' @ lf # ''    '' @ d @ lf # ''    ---'' @ b"
proof -
  obtain p0 where p0: "prompt_prefix = p0 @ ''---'' @ lf # ''    ''"
    using prompt_prefix_ends by blast
  obtain s0 where s0: "prompt_suffix = lf # ''    ---'' @ s0"
    using prompt_suffix_starts by blast
  show ?thesis
    by (rule exI [of _ p0], rule exI [of _ s0]) (simp add: buildPrompt_def p0 s0)
qed

end
