(* ===== verification/Gemini.thy ===== *)
theory Gemini
  imports Prompt
begin

text \<open>
  \<open>generateAnsibleRole\<close> of \<open>src/services/geminiService.ts\<close>.  The two external
  calls are parameters: the model call \<open>ai.models.generateContent\<close> (a
  \<open>transport\<close>: it throws, or answers with a response whose \<open>text\<close> may be
  undefined) and \<open>JSON.parse\<close> (a \<open>json_parser\<close>: it throws a \<open>SyntaxError\<close>
  or returns a value).  What the function does with their results is modelled in full:
  trimming, \<open>Object.entries\<close>, the mapping to \<open>{path, content}\<close> records (the
  \<open>content as string\<close> cast checks nothing), the empty-result error, the
  \<open>catch\<close> block that logs the text and re-throws either the caught error (when its
  message contains \<open>empty set of files\<close>) or a generic parse error.  The log of
  \<open>console.error\<close> calls is returned beside the outcome.
\<close>

record gen_request =
  req_model :: string
  req_contents :: string
  req_mime :: string
  req_temperature :: rat

type_synonym transport = "gen_request \<Rightarrow> exn + string option"
type_synonym json_parser = "string \<Rightarrow> exn + json"
type_synonym console = "(string \<times> string) list"

definition gemini_request :: "string \<Rightarrow> gen_request" where
  "gemini_request prompt =
     \<lparr>req_model = ''gemini-2.5-pro'', req_contents = prompt,
      req_mime = ''application/json'', req_temperature = 1 / 5\<rparr>"

definition empty_files_msg :: string where
  "empty_files_msg =
     ''The model returned an empty set of files. Please try a different description.''"

definition parse_failure_msg :: string where
  "parse_failure_msg =
     ''Could not parse the generated content. The model may have returned an invalid format. Check the console for the raw response.''"

definition text_undefined_error :: exn where
  "text_undefined_error = ErrorObj ''TypeError'' ''Cannot read properties of undefined (reading 'trim')''"

definition parse_log_msg :: string where
  "parse_log_msg = ''Failed to parse Gemini response as JSON:''"

text \<open>\<open>Object.entries(jsonObject).map(([path, content]) => ({ path, content }))\<close> and the emptiness check.\<close>

definition files_of_value :: "json \<Rightarrow> exn + gfile list" where
  "files_of_value v =
     (case object_entries v of
        Inl e \<Rightarrow> Inl e
      | Inr es \<Rightarrow>
          (let files = map (\<lambda>(p, c). \<lparr>path = p, content = c\<rparr>) es
           in if length files = 0 then Inl (ErrorObj ''Error'' empty_files_msg) else Inr files))"

text \<open>The \<open>try\<close> block.\<close>

definition parse_response :: "json_parser \<Rightarrow> string \<Rightarrow> exn + gfile list" where
  "parse_response parse text =
     (case parse text of Inl e \<Rightarrow> Inl e | Inr v \<Rightarrow> files_of_value v)"

text \<open>The \<open>catch\<close> block's choice of what to throw.\<close>

definition rethrow_or_wrap :: "exn \<Rightarrow> exn" where
  "rethrow_or_wrap e =
     (case e of
        ErrorObj n m \<Rightarrow> if js_includes m ''empty set of files'' then e else ErrorObj ''Error'' parse_failure_msg
      | ThrownValue \<Rightarrow> ErrorObj ''Error'' parse_failure_msg)"

definition generateAnsibleRole ::
  "transport \<Rightarrow> json_parser \<Rightarrow> string \<Rightarrow> console \<times> (exn + gfile list)" where
  "generateAnsibleRole call parse description =
     (let prompt = buildPrompt description
      in case call (gemini_request prompt) of
           Inl e \<Rightarrow> ([], Inl e)
         | Inr None \<Rightarrow> ([], Inl text_undefined_error)
         | Inr (Some raw) \<Rightarrow>
             (let text = js_trim raw
              in case parse_response parse text of
                   Inr files \<Rightarrow> ([], Inr files)
                 | Inl e \<Rightarrow> ([(parse_log_msg, text)], Inl (rethrow_or_wrap e))))"

text \<open>The value-level JSON serialisation of a file set: one member per file, in order.\<close>

definition encode_files :: "gfile list \<Rightarrow> json" where
  "encode_files fs = JObj (map (\<lambda>f. (path f, content f)) fs)"

section \<open>Lemmas\<close>

lemma files_of_value_Inr: "files_of_value v = Inr fs \<Longrightarrow> fs \<noteq> []"
  by (auto simp: files_of_value_def Let_def split: sum.splits if_splits)

lemma files_of_value_Inl:
  "files_of_value v = Inl e \<Longrightarrow>
   e = ErrorObj ''Error'' empty_files_msg
   \<or> e = ErrorObj ''TypeError'' ''Cannot convert undefined or null to object''"
  by (cases v) (auto simp: files_of_value_def Let_def split: if_splits)

lemma rethrow_or_wrap_empty [simp]:
  "rethrow_or_wrap (ErrorObj ''Error'' empty_files_msg) = ErrorObj ''Error'' empty_files_msg"
  by (simp add: rethrow_or_wrap_def empty_files_msg_def)

lemma rethrow_or_wrap_null [simp]:
  "rethrow_or_wrap (ErrorObj ''TypeError'' ''Cannot convert undefined or null to object'')
     = ErrorObj ''Error'' parse_failure_msg"
  by (simp add: rethrow_or_wrap_def)

lemma gfile_eta [simp]: "\<lparr>path = path f, content = content f\<rparr> = f"
  by simp

lemma files_of_entries_roundtrip:
  "map ((\<lambda>(p, c). \<lparr>path = p, content = c\<rparr>) \<circ> (\<lambda>f. (path f, content f))) fs = fs"
  by (induction fs) auto

lemma enumerate_Nil_iff [simp]: "enumerate n xs = [] \<longleftrightarrow> xs = []"
  by (metis length_enumerate length_0_conv)

lemma generateAnsibleRole_response:
  "call (gemini_request (buildPrompt d)) = Inr (Some raw) \<Longrightarrow>
   generateAnsibleRole call parse d =
     (case parse_response parse (js_trim raw) of
        Inr fs \<Rightarrow> ([], Inr fs)
      | Inl e \<Rightarrow> ([(parse_log_msg, js_trim raw)], Inl (rethrow_or_wrap e)))"
  by (simp add: generateAnsibleRole_def Let_def)

section \<open>The orchestration\<close>

text \<open>
  C4: a successful generation returns a non-empty file set, logs nothing, and is the
  conversion of the value parsed from the trimmed text of the one model response.
\<close>

theorem generateAnsibleRole_success:
  assumes "snd (generateAnsibleRole call parse d) = Inr fs"
  shows "fs \<noteq> [] \<and> fst (generateAnsibleRole call parse d) = []
    \<and> (\<exists>raw v. call (gemini_request (buildPrompt d)) = Inr (Some raw)
              \<and> parse (js_trim raw) = Inr v \<and> files_of_value v = Inr fs)"
  using assms files_of_value_Inr
  by (auto simp: generateAnsibleRole_def parse_response_def Let_def split: sum.splits option.splits)

theorem generateAnsibleRole_success_witness:
  "snd (generateAnsibleRole (\<lambda>_. Inr (Some ''{}'')) (\<lambda>_. Inr (JObj [(''r/a.yml'', JStr ''x'')])) ''r'')
     = Inr [\<lparr>path = ''r/a.yml'', content = JStr ''x''\<rparr>]
   \<and> fst (generateAnsibleRole (\<lambda>_. Inr (Some ''{}'')) (\<lambda>_. Inr (JObj [(''r/a.yml'', JStr ''x'')])) ''r'') = []"
proof -
  have h: "snd (generateAnsibleRole (\<lambda>_. Inr (Some ''{}'')) (\<lambda>_. Inr (JObj [(''r/a.yml'', JStr ''x'')])) ''r'')
     = Inr [\<lparr>path = ''r/a.yml'', content = JStr ''x''\<rparr>]"
    by (simp add: generateAnsibleRole_def parse_response_def files_of_value_def js_object_of_def own_keys_def)
  show ?thesis using h generateAnsibleRole_success [OF h] by simp
qed

text \<open>
  C5: every failure is one of: the transport's own error, passed through unchanged;
  the \<open>TypeError\<close> of an undefined response text; the empty-result error; the generic
  parse error; or an error of \<open>JSON.parse\<close> whose message contains
  \<open>empty set of files\<close>, re-thrown unchanged.
\<close>

theorem generateAnsibleRole_errors:
  assumes err: "snd (generateAnsibleRole call parse d) = Inl e"
  shows "call (gemini_request (buildPrompt d)) = Inl e
    \<or> e = text_undefined_error
    \<or> e = ErrorObj ''Error'' empty_files_msg
    \<or> e = ErrorObj ''Error'' parse_failure_msg
    \<or> (\<exists>raw n m. call (gemini_request (buildPrompt d)) = Inr (Some raw)
          \<and> parse (js_trim raw) = Inl (ErrorObj n m) \<and> js_includes m ''empty set of files''
          \<and> e = ErrorObj n m)"
proof (cases "call (gemini_request (buildPrompt d))")
  case (Inl e')
  with err show ?thesis by (simp add: generateAnsibleRole_def)
next
  case (Inr r)
  show ?thesis
  proof (cases r)
    case None
    with Inr err show ?thesis by (simp add: generateAnsibleRole_def)
  next
    case (Some raw)
    with Inr have call: "call (gemini_request (buildPrompt d)) = Inr (Some raw)" by simp
    show ?thesis
    proof (cases "parse (js_trim raw)")
      case (Inl pe)
      with err call have e: "e = rethrow_or_wrap pe"
        by (simp add: generateAnsibleRole_response parse_response_def)
      show ?thesis
        using call Inl by (cases pe) (auto simp: e rethrow_or_wrap_def)
    next
      case (Inr v)
      with err call obtain e0 where "files_of_value v = Inl e0" and "e = rethrow_or_wrap e0"
        by (auto simp: generateAnsibleRole_response parse_response_def split: sum.splits)
      then show ?thesis by (auto dest: files_of_value_Inl)
    qed
  qed
qed

theorem generateAnsibleRole_errors_witness:
  "snd (generateAnsibleRole (\<lambda>_. Inl (ErrorObj ''ApiError'' ''quota exceeded'')) (\<lambda>_. Inr JNull) ''r'')
     = Inl (ErrorObj ''ApiError'' ''quota exceeded'')
   \<and> (\<lambda>_. Inl (ErrorObj ''ApiError'' ''quota exceeded'')) (gemini_request (buildPrompt ''r''))
     = (Inl (ErrorObj ''ApiError'' ''quota exceeded'') :: exn + string option)"
proof -
  have h: "snd (generateAnsibleRole (\<lambda>_. Inl (ErrorObj ''ApiError'' ''quota exceeded'')) (\<lambda>_. Inr JNull) ''r'')
     = Inl (ErrorObj ''ApiError'' ''quota exceeded'')"
    by (simp add: generateAnsibleRole_def)
  show ?thesis using h generateAnsibleRole_errors [OF h] by simp
qed

text \<open>
  C18: when \<open>JSON.parse\<close> throws an error whose message does not mention
  \<open>empty set of files\<close>, the caller gets the generic parse error and the trimmed
  response text goes to the console only.
\<close>

theorem generateAnsibleRole_parse_error:
  assumes "call (gemini_request (buildPrompt d)) = Inr (Some raw)"
    and "parse (js_trim raw) = Inl (ErrorObj n m)"
    and "\<not> js_includes m ''empty set of files''"
  shows "generateAnsibleRole call parse d =
           ([(parse_log_msg, js_trim raw)], Inl (ErrorObj ''Error'' parse_failure_msg))"
  using assms by (simp add: generateAnsibleRole_response parse_response_def rethrow_or_wrap_def)

theorem generateAnsibleRole_parse_error_witness:
  "generateAnsibleRole (\<lambda>_. Inr (Some '' oops ''))
      (\<lambda>_. Inl (ErrorObj ''SyntaxError'' ''Unexpected token''))  ''r''
   = ([(parse_log_msg, ''oops'')], Inl (ErrorObj ''Error'' parse_failure_msg))"
proof -
  have "js_trim '' oops '' = ''oops''" by (simp add: js_trim_def is_js_space_def)
  then show ?thesis
    using generateAnsibleRole_parse_error
      [of "\<lambda>_. Inr (Some '' oops '')" "''r''" "'' oops ''"
          "\<lambda>_. Inl (ErrorObj ''SyntaxError'' ''Unexpected token'')" "''SyntaxError''" "''Unexpected token''"]
    by simp
qed

text \<open>
  C19: the response \<open>{}\<close> ends in the empty-result error (after the text is logged as
  a failed parse).
\<close>

theorem generateAnsibleRole_empty_object:
  assumes "call (gemini_request (buildPrompt d)) = Inr (Some raw)"
    and "parse (js_trim raw) = Inr (JObj [])"
  shows "generateAnsibleRole call parse d =
           ([(parse_log_msg, js_trim raw)], Inl (ErrorObj ''Error'' empty_files_msg))"
  using assms
  by (simp add: generateAnsibleRole_response parse_response_def files_of_value_def
                js_object_of_def own_keys_def)

theorem generateAnsibleRole_empty_object_witness:
  "generateAnsibleRole (\<lambda>_. Inr (Some ''{}'')) (\<lambda>_. Inr (JObj [])) ''r''
   = ([(parse_log_msg, ''{}'')], Inl (ErrorObj ''Error'' empty_files_msg))"
proof -
  have "js_trim ''{}'' = ''{}''" by (simp add: js_trim_def is_js_space_def)
  then show ?thesis
    using generateAnsibleRole_empty_object [of "\<lambda>_. Inr (Some ''{}'')" "''r''" "''{}''" "\<lambda>_. Inr (JObj [])"]
    by simp
qed

text \<open>
  C20: the \<open>catch\<close> block tells its own empty-result error apart by searching the
  message for \<open>empty set of files\<close>.  \<open>JSON.parse\<close> quotes the text it rejects in
  its \<open>SyntaxError\<close> message, so for every response whose trimmed text contains that
  phrase and does not parse, the parser's error is re-thrown unchanged and the raw
  response reaches the user instead of the generic parse error.
\<close>

theorem generateAnsibleRole_leaks_parser_error:
  assumes "call (gemini_request (buildPrompt d)) = Inr (Some raw)"
    and "parse (js_trim raw) = Inl (ErrorObj n (pre @ js_trim raw @ post))"
    and "js_includes (js_trim raw) ''empty set of files''"
  shows "generateAnsibleRole call parse d =
           ([(parse_log_msg, js_trim raw)], Inl (ErrorObj n (pre @ js_trim raw @ post)))"
proof -
  have "js_includes (pre @ js_trim raw @ post) ''empty set of files''"
    using assms(3) by (auto simp: js_includes_iff) (metis append.assoc)
  then show ?thesis
    using assms(1,2) by (simp add: generateAnsibleRole_response parse_response_def rethrow_or_wrap_def)
qed

theorem generateAnsibleRole_leaks_parser_error_witness:
  "(\<lambda>_::gen_request. Inr (Some '' empty set of files '') :: exn + string option)
      (gemini_request (buildPrompt ''nginx'')) = Inr (Some '' empty set of files '')
   \<and> js_trim '' empty set of files '' = ''empty set of files''
   \<and> js_includes ''empty set of files'' ''empty set of files''
   \<and> generateAnsibleRole (\<lambda>_. Inr (Some '' empty set of files ''))
       (\<lambda>t. Inl (ErrorObj ''SyntaxError'' (''Unexpected token 'e', '' @ t @ '' is not valid JSON'')))
       ''nginx''
     = ([(parse_log_msg, ''empty set of files'')],
        Inl (ErrorObj ''SyntaxError'' (''Unexpected token 'e', '' @ ''empty set of files'' @ '' is not valid JSON'')))"
proof -
  have t: "js_trim '' empty set of files '' = ''empty set of files''"
    by (simp add: js_trim_def is_js_space_def)
  have i: "js_includes ''empty set of files'' ''empty set of files''"
    by (simp add: js_includes_iff) (metis append.left_neutral append_Nil2)
  show ?thesis
    using generateAnsibleRole_leaks_parser_error
            [of "\<lambda>_. Inr (Some '' empty set of files '')" "''nginx''" "'' empty set of files ''"
                "\<lambda>t. Inl (ErrorObj ''SyntaxError'' (''Unexpected token 'e', '' @ t @ '' is not valid JSON''))"
                "''SyntaxError''" "''Unexpected token 'e', ''" "'' is not valid JSON''"] t i
    by simp
qed

section \<open>The conversion of the parsed value\<close>

text \<open>
  C10: round trip: a non-empty file set with distinct paths, none of them an array
  index, is recovered in order from its JSON object.
\<close>

theorem files_of_value_roundtrip:
  assumes "fs \<noteq> []" and "distinct (map path fs)"
    and "\<not> list_ex (\<lambda>f. is_array_index (path f)) fs"
  shows "files_of_value (encode_files fs) = Inr fs"
proof -
  let ?ms = "map (\<lambda>f. (path f, content f)) fs"
  have d: "distinct (map fst ?ms)" using assms(2) by (simp add: comp_def)
  have ni: "\<not> list_ex (\<lambda>kv. is_array_index (fst kv)) ?ms"
    using assms(3) by (simp add: list_ex_iff)
  have "own_keys (js_object_of ?ms) = ?ms"
    using js_object_of_distinct [OF d] own_keys_no_index [OF ni] by simp
  then show ?thesis
    using assms(1) by (simp add: files_of_value_def encode_files_def files_of_entries_roundtrip)
qed

theorem files_of_value_roundtrip_witness:
  "files_of_value (encode_files [\<lparr>path = ''r/a.yml'', content = JStr ''x''\<rparr>, \<lparr>path = ''r/b.yml'', content = JStr ''y''\<rparr>])
   = Inr [\<lparr>path = ''r/a.yml'', content = JStr ''x''\<rparr>, \<lparr>path = ''r/b.yml'', content = JStr ''y''\<rparr>]"
  by (rule files_of_value_roundtrip) (simp_all add: js_eval)

text \<open>
  C25: the parsed file set never repeats a path, and a path repeated in the JSON text
  keeps the last value given for it.
\<close>

theorem files_of_value_object:
  assumes "files_of_value (JObj ms) = Inr fs"
  shows "distinct (map path fs) \<and> map_of (map (\<lambda>f. (path f, content f)) fs) = map_of (rev ms)"
proof -
  have fs: "fs = map (\<lambda>(p, c). \<lparr>path = p, content = c\<rparr>) (own_keys (js_object_of ms))"
    using assms by (auto simp: files_of_value_def Let_def split: if_splits)
  have m: "map (\<lambda>f. (path f, content f)) fs = own_keys (js_object_of ms)"
    by (simp add: fs comp_def case_prod_beta)
  have "distinct (map fst (own_keys (js_object_of ms)))"
    by (rule distinct_own_keys [OF distinct_js_object_of])
  moreover have "map path fs = map fst (own_keys (js_object_of ms))"
    using arg_cong [OF m, of "map fst"] by (simp add: comp_def)
  moreover have "map_of (own_keys (js_object_of ms)) = map_of (js_object_of ms)"
    using distinct_js_object_of
    by (metis distinct_own_keys map_of_inject_set set_own_keys)
  ultimately show ?thesis by (simp add: m map_of_js_object_of)
qed

theorem files_of_value_object_witness:
  "files_of_value (JObj [(''a'', JStr ''1''), (''b'', JStr ''2''), (''a'', JStr ''3'')])
     = Inr [\<lparr>path = ''a'', content = JStr ''3''\<rparr>, \<lparr>path = ''b'', content = JStr ''2''\<rparr>]
   \<and> distinct (map path [\<lparr>path = ''a'', content = JStr ''3''\<rparr>, \<lparr>path = ''b'', content = JStr ''2''\<rparr>])"
proof -
  have h: "files_of_value (JObj [(''a'', JStr ''1''), (''b'', JStr ''2''), (''a'', JStr ''3'')])
     = Inr [\<lparr>path = ''a'', content = JStr ''3''\<rparr>, \<lparr>path = ''b'', content = JStr ''2''\<rparr>]"
    by (simp add: files_of_value_def js_eval)
  show ?thesis using h files_of_value_object [OF h] by simp
qed

section \<open>Helper facts for the components that use the file set\<close>

lemma generateAnsibleRole_nonempty: "snd (generateAnsibleRole call parse d) = Inr fs \<Longrightarrow> fs \<noteq> []"
  by (auto simp: generateAnsibleRole_def parse_response_def Let_def files_of_value_def
           split: sum.splits option.splits if_splits)

lemma generateAnsibleRole_value:
  "snd (generateAnsibleRole call parse d) = Inr fs \<Longrightarrow> \<exists>v. files_of_value v = Inr fs"
  by (auto simp: generateAnsibleRole_def parse_response_def Let_def split: sum.splits option.splits)

lemma files_of_value_distinct: "files_of_value v = Inr fs \<Longrightarrow> distinct (map path fs)"
proof (cases v)
  case (JObj ms)
  assume "files_of_value v = Inr fs"
  with JObj have "fs = map (\<lambda>(p, c). \<lparr>path = p, content = c\<rparr>) (own_keys (js_object_of ms))"
    by (auto simp: files_of_value_def Let_def split: if_splits)
  then have "map path fs = map fst (own_keys (js_object_of ms))"
    by (simp add: comp_def case_prod_beta)
  then show ?thesis by (simp add: distinct_own_keys [OF distinct_js_object_of])
next
  case (JArr vs)
  assume "files_of_value v = Inr fs"
  with JArr have "map path fs = map dec_string [0..<length vs]"
    by (auto simp: files_of_value_def Let_def comp_def case_prod_beta map_fst_enumerate_comp
             split: if_splits)
  then show ?thesis
    by (simp add: distinct_map inj_on_subset [OF dec_string_inj])
next
  case (JStr cs)
  assume "files_of_value v = Inr fs"
  with JStr have "map path fs = map dec_string [0..<length cs]"
    by (auto simp: files_of_value_def Let_def comp_def case_prod_beta map_fst_enumerate_comp
             split: if_splits)
  then show ?thesis
    by (simp add: distinct_map inj_on_subset [OF dec_string_inj])
qed (auto simp: files_of_value_def)

end
