(* ===== verification/Form.thy ===== *)
theory Form
  imports Prelude
begin

text \<open>
  The \<open>AnsibleForm\<close> component of \<open>src/components/AnsibleForm.tsx\<close>: its state, the
  description (initialised to a default text), and what it renders for a description
  and the \<open>isLoading\<close> prop: the text area, and the submit button with its
  \<open>disabled\<close> flag, spinner and label.  Its submit handler is \<open>handle_submit\<close> in
  theory \<open>App\<close>, since it calls the controller's \<open>handleGenerate\<close>.
\<close>

definition default_description :: string where
  "default_description =
     ''An Ansible role to install and configure nginx on Ubuntu 22.04. It should include a task to set up a default virtual host from a template file.''"

record form_view =
  fv_value :: string
  fv_placeholder :: string
  fv_disabled :: bool
  fv_spinner :: bool
  fv_label :: string

definition form_placeholder :: string where
  "form_placeholder =
     ''e.g., An Ansible role to install Docker on Debian 11 and add the current user to the docker group.''"

text \<open>
  The rendered form: the text area shows the description; the button is disabled
  while loading or when the trimmed description is empty, and while loading shows the
  spinner followed by the text \<open> Generating...\<close>.
\<close>

definition ansible_form :: "string \<Rightarrow> bool \<Rightarrow> form_view" where
  "ansible_form description isLoading =
     \<lparr>fv_value = description, fv_placeholder = form_placeholder,
      fv_disabled = (isLoading \<or> js_trim description = []),
      fv_spinner = isLoading,
      fv_label = (if isLoading then '' Generating...'' else ''Generate Ansible Role'')\<rparr>"

section \<open>Lemmas\<close>

lemma default_description_nonblank: "js_trim default_description \<noteq> []"
  by (simp add: default_description_def js_eval)

end
