(* ===== verification/App.thy ===== *)
theory App
  imports TreeView Gemini Form
begin

text \<open>
  The controller of \<open>src/App.tsx\<close> with the state its child components keep
  (\<open>src/components/AnsibleForm.tsx\<close>: the description; \<open>CodeDisplay.tsx\<close>: the
  selected file).  \<open>handleGenerate\<close> and \<open>handleDownloadZip\<close> are \<open>async\<close>: each
  runs up to its \<open>await\<close>, and the rest runs later, when the awaited promise settles.
  So the state records the calls in flight (\<open>pending_gen\<close>, \<open>pending_zip\<close>), and
  \<open>app_step\<close> is a relation whose rules are the user's actions and the settlements,
  in any interleaving.  The download's archive is what \<open>zip.file\<close> was given; the
  finished downloads are recorded in \<open>downloads\<close>.  The lemmas give the invariant
  of the reachable states, the refinement of the specification's state machine, and
  the termination and liveness of the settlements (\<open>settle_step\<close>).
\<close>

record app_state =
  files :: "gfile list"
  loading :: bool
  error :: "string option"
  selected :: "gfile option"
  description :: string
  pending_gen :: "string list"
  pending_zip :: "(string \<times> json js_object) list"
  downloads :: "(string \<times> json js_object) list"

definition init_state :: app_state where
  "init_state =
     \<lparr>files = [], loading = False, error = None, selected = None,
      description = default_description, pending_gen = [], pending_zip = [], downloads = []\<rparr>"

section \<open>CodeDisplay: selection and panel\<close>

text \<open>The \<open>useEffect\<close> on \<open>files\<close>: the first \<open>tasks/main.yml\<close>, else the first file.\<close>

definition initial_selection :: "gfile list \<Rightarrow> gfile option" where
  "initial_selection fs =
     (case find (\<lambda>f. js_ends_with (path f) ''tasks/main.yml'') fs of
        Some f \<Rightarrow> Some f
      | None \<Rightarrow> (case fs of [] \<Rightarrow> None | f # _ \<Rightarrow> Some f))"

datatype panel =
    Spinner
  | ErrorPanel string
  | Placeholder
  | FilesPanel (panel_header: "string option") (panel_download_disabled: bool)
      (panel_tree: "row list option") (panel_code: "json option")
  | RenderThrows

text \<open>
  What React accepts as the child \<open>{selectedFile.content}\<close>: strings and numbers are
  shown, \<open>null\<close> and booleans render nothing, arrays render their elements, and a
  plain object throws (\<open>Objects are not valid as a React child\<close>); with no error
  boundary the whole page unmounts.
\<close>

fun react_renderable :: "json \<Rightarrow> bool" where
  "react_renderable (JObj ms) = False"
| "react_renderable (JArr vs) = list_all react_renderable vs"
| "react_renderable v = True"

text \<open>
  \<open>renderContent\<close>; the collation of \<open>localeCompare\<close> is the parameter \<open>key\<close>.  The
  code pane's child is checked as React does when it renders it.
\<close>

definition render_content :: "(string \<Rightarrow> 'k::linorder) \<Rightarrow> app_state \<Rightarrow> panel" where
  "render_content key s =
     (if loading s then Spinner
      else case error s of
        Some m \<Rightarrow> ErrorPanel m
      | None \<Rightarrow>
          if files s = [] then Placeholder
          else if pred_option (\<lambda>f. react_renderable (content f)) (selected s)
          then FilesPanel (map_option path (selected s)) (length (files s) = 0 \<or> loading s)
                 (map_option (render_tree key (case selected s of None \<Rightarrow> '''' | Some f \<Rightarrow> path f))
                    (buildFileTree (files s)))
                 (map_option content (selected s))
          else RenderThrows)"

definition files_panel_shown :: "app_state \<Rightarrow> bool" where
  "files_panel_shown s \<longleftrightarrow> \<not> loading s \<and> error s = None \<and> files s \<noteq> []"

section \<open>AnsibleForm\<close>

text \<open>
  The form's \<open>onSubmit\<close> fires from its submit button, which the controller renders
  with the description and its loading flag.
\<close>

definition submit_enabled :: "app_state \<Rightarrow> bool" where
  "submit_enabled s \<longleftrightarrow> \<not> fv_disabled (ansible_form (description s) (loading s))"

section \<open>handleGenerate\<close>

text \<open>Up to the \<open>await\<close>: the three setters, and the selection effect on \<open>files = []\<close>.\<close>

definition start_generate :: "app_state \<Rightarrow> string \<Rightarrow> app_state" where
  "start_generate s d =
     s\<lparr>loading := True, error := None, files := [], selected := None,
       pending_gen := pending_gen s @ [d]\<rparr>"

text \<open>\<open>handleSubmit\<close>: the untrimmed description is passed on.\<close>

definition handle_submit :: "app_state \<Rightarrow> app_state" where
  "handle_submit s = (if js_trim (description s) \<noteq> [] then start_generate s (description s) else s)"

definition error_text :: "exn \<Rightarrow> string" where
  "error_text e =
     (case e of ErrorObj n m \<Rightarrow> ''Generation failed: '' @ m | ThrownValue \<Rightarrow> ''An unknown error occurred.'')"

text \<open>After the \<open>await\<close>: \<open>try\<close>/\<open>catch\<close>/\<open>finally\<close>, and the selection effect on new files.\<close>

definition finish_generate :: "app_state \<Rightarrow> string \<Rightarrow> exn + gfile list \<Rightarrow> app_state" where
  "finish_generate s d r =
     (case r of
        Inr fs \<Rightarrow> s\<lparr>files := fs, selected := initial_selection fs, loading := False,
                   pending_gen := remove1 d (pending_gen s)\<rparr>
      | Inl e \<Rightarrow> s\<lparr>error := Some (error_text e), loading := False,
                   pending_gen := remove1 d (pending_gen s)\<rparr>)"

section \<open>handleDownloadZip\<close>

definition root_dir :: "gfile list \<Rightarrow> string" where
  "root_dir fs =
     (case fs of
        [] \<Rightarrow> ''ansible_role''
      | f # _ \<Rightarrow> (case js_split CHR ''/'' (path f) of
                   [] \<Rightarrow> ''ansible_role''
                 | seg # _ \<Rightarrow> if seg = [] then ''ansible_role'' else seg))"

text \<open>\<open>zip.file(path, content)\<close> for each file: a later file with the same path replaces the entry.\<close>

definition zip_entries :: "gfile list \<Rightarrow> json js_object" where
  "zip_entries fs = foldl (\<lambda>z f. prop_set z (path f) (content f)) [] fs"

definition handle_download :: "app_state \<Rightarrow> app_state" where
  "handle_download s =
     (if length (files s) = 0 then s
      else s\<lparr>pending_zip := pending_zip s @ [(root_dir (files s) @ ''.zip'', zip_entries (files s))]\<rparr>)"

definition zip_error_msg :: string where
  "zip_error_msg = ''Failed to generate zip file.''"

definition zip_done :: "app_state \<Rightarrow> string \<times> json js_object \<Rightarrow> app_state" where
  "zip_done s j = s\<lparr>pending_zip := remove1 j (pending_zip s), downloads := downloads s @ [j]\<rparr>"

definition zip_failed :: "app_state \<Rightarrow> string \<times> json js_object \<Rightarrow> app_state" where
  "zip_failed s j = s\<lparr>pending_zip := remove1 j (pending_zip s), error := Some zip_error_msg\<rparr>"

section \<open>The controller as a step relation\<close>

text \<open>
  One rule per event: typing in the text area; pressing the enabled submit button;
  the model call of a pending generation settling with any outcome
  \<open>generateAnsibleRole\<close> can have; choosing a file in the shown tree; pressing the
  download button of the shown file panel; an archive finishing or failing.
\<close>

inductive app_step :: "app_state \<Rightarrow> app_state \<Rightarrow> bool" where
  edit: "app_step s (s\<lparr>description := d\<rparr>)"
| submit: "submit_enabled s \<Longrightarrow> app_step s (handle_submit s)"
| settle: "d \<in> set (pending_gen s) \<Longrightarrow>
    app_step s (finish_generate s d (snd (generateAnsibleRole call parse d)))"
| select: "files_panel_shown s \<Longrightarrow> f \<in> set (files s) \<Longrightarrow> app_step s (s\<lparr>selected := Some f\<rparr>)"
| download: "files_panel_shown s \<Longrightarrow> app_step s (handle_download s)"
| zip_ok: "j \<in> set (pending_zip s) \<Longrightarrow> app_step s (zip_done s j)"
| zip_fail: "j \<in> set (pending_zip s) \<Longrightarrow> app_step s (zip_failed s j)"

inductive reachable :: "app_state \<Rightarrow> bool" where
  init: "reachable init_state"
| step: "reachable s \<Longrightarrow> app_step s t \<Longrightarrow> reachable t"

text \<open>The specification's four-state machine and the abstraction onto it.\<close>

datatype phase = Idle | Generating | Succeeded | Failed

definition phase_of :: "app_state \<Rightarrow> phase" where
  "phase_of s =
     (if loading s then Generating
      else if error s \<noteq> None then Failed
      else if files s \<noteq> [] then Succeeded
      else Idle)"

inductive spec_step :: "phase \<Rightarrow> phase \<Rightarrow> bool" where
  stutter: "spec_step p p"
| submit_idle: "spec_step Idle Generating"
| resubmit_ok: "spec_step Succeeded Generating"
| resubmit_failed: "spec_step Failed Generating"
| settle_ok: "spec_step Generating Succeeded"
| settle_failed: "spec_step Generating Failed"

text \<open>The controller's invariant.\<close>

definition app_inv :: "app_state \<Rightarrow> bool" where
  "app_inv s \<longleftrightarrow>
     (loading s \<longleftrightarrow> pending_gen s \<noteq> []) \<and> length (pending_gen s) \<le> 1
     \<and> (if loading s then files s = [] \<and> selected s = None else True)
     \<and> set_option (selected s) \<subseteq> set (files s)
     \<and> (files s = [] \<or> (\<exists>call parse d. snd (generateAnsibleRole call parse d) = Inr (files s)))"

text \<open>
  The events the user does not cause: a pending generation or archive settling.
  \<open>in_flight\<close> counts the awaited promises.
\<close>

inductive settle_step :: "app_state \<Rightarrow> app_state \<Rightarrow> bool" where
  settle: "d \<in> set (pending_gen s) \<Longrightarrow>
    settle_step s (finish_generate s d (snd (generateAnsibleRole call parse d)))"
| zip_ok: "j \<in> set (pending_zip s) \<Longrightarrow> settle_step s (zip_done s j)"
| zip_fail: "j \<in> set (pending_zip s) \<Longrightarrow> settle_step s (zip_failed s j)"

definition in_flight :: "app_state \<Rightarrow> nat" where
  "in_flight s = length (pending_gen s) + length (pending_zip s)"

text \<open>The messages the error panel may show: the zip failure, or a generation error.\<close>

definition shown_error_ok :: "string \<Rightarrow> bool" where
  "shown_error_ok m \<longleftrightarrow>
     m = zip_error_msg \<or> (\<exists>call parse d e. snd (generateAnsibleRole call parse d) = Inl e \<and> m = error_text e)"

section \<open>Lemmas\<close>

lemma initial_selection_in: "initial_selection fs = Some f \<Longrightarrow> f \<in> set fs"
  by (auto simp: initial_selection_def split: option.splits list.splits dest: find_Some_iff [THEN iffD1])

lemma submit_enabled_iff: "submit_enabled s \<longleftrightarrow> \<not> loading s \<and> js_trim (description s) \<noteq> []"
  by (simp add: submit_enabled_def ansible_form_def)

lemma app_inv_init: "app_inv init_state"
  by (simp add: app_inv_def init_state_def)

lemma app_inv_frame:
  "loading t = loading s \<Longrightarrow> pending_gen t = pending_gen s \<Longrightarrow> files t = files s \<Longrightarrow>
   selected t = selected s \<Longrightarrow> app_inv t = app_inv s"
  by (simp add: app_inv_def)

lemma app_step_inv: "app_step s t \<Longrightarrow> app_inv s \<Longrightarrow> app_inv t"
proof (induction rule: app_step.induct)
  case (edit s d)
  then show ?case by (subst app_inv_frame [of _ s]) simp_all
next
  case (submit s)
  then show ?case
    by (auto simp: app_inv_def submit_enabled_iff handle_submit_def start_generate_def)
next
  case (settle d s call parse)
  from settle have "pending_gen s = [d]"
    by (auto simp: app_inv_def le_Suc_eq length_Suc_conv)
  with settle show ?case
    by (auto simp: app_inv_def finish_generate_def split: sum.splits option.splits
             dest: initial_selection_in)
next
  case (select s f)
  then show ?case by (auto simp: app_inv_def files_panel_shown_def)
next
  case (download s)
  then show ?case by (subst app_inv_frame [of _ s]) (simp_all add: handle_download_def)
next
  case (zip_ok j s)
  then show ?case by (subst app_inv_frame [of _ s]) (simp_all add: zip_done_def)
next
  case (zip_fail j s)
  then show ?case by (subst app_inv_frame [of _ s]) (simp_all add: zip_failed_def)
qed

lemma reachable_inv: "reachable s \<Longrightarrow> app_inv s"
  by (induction rule: reachable.induct) (auto intro: app_inv_init app_step_inv)

lemma submit_enabled_init: "submit_enabled init_state"
  by (simp add: submit_enabled_iff init_state_def default_description_def js_eval)

text \<open>The state after the default description was submitted and its generation succeeded.\<close>

lemma generated_state:
  assumes gen: "snd (generateAnsibleRole call parse default_description) = Inr fs"
  shows "reachable (finish_generate (handle_submit init_state) default_description (Inr fs))
    \<and> files_panel_shown (finish_generate (handle_submit init_state) default_description (Inr fs))"
proof -
  have r1: "reachable (handle_submit init_state)"
    by (rule reachable.step [OF reachable.init app_step.submit [OF submit_enabled_init]])
  have p1: "default_description \<in> set (pending_gen (handle_submit init_state))"
    using default_description_nonblank
    by (simp add: handle_submit_def start_generate_def init_state_def)
  have "reachable (finish_generate (handle_submit init_state) default_description
          (snd (generateAnsibleRole call parse default_description)))"
    by (rule reachable.step [OF r1 app_step.settle [OF p1]])
  moreover have "fs \<noteq> []" using gen by (rule generateAnsibleRole_nonempty)
  ultimately show ?thesis
    using gen default_description_nonblank
    by (simp add: files_panel_shown_def finish_generate_def handle_submit_def start_generate_def
                  init_state_def)
qed

lemma zip_entries_distinct:
  "distinct (map path fs) \<Longrightarrow> zip_entries fs = map (\<lambda>f. (path f, content f)) fs"
proof -
  have "distinct (map fst z0 @ map path fs) \<Longrightarrow>
        foldl (\<lambda>z f. prop_set z (path f) (content f)) z0 fs = z0 @ map (\<lambda>f. (path f, content f)) fs"
    for z0
    by (induction fs arbitrary: z0) (auto simp: prop_set_fresh)
  then show "distinct (map path fs) \<Longrightarrow> ?thesis" by (simp add: zip_entries_def)
qed

lemma settle_step_app_step: "settle_step s t \<Longrightarrow> app_step s t"
  by (induction rule: settle_step.induct) (auto intro: app_step.intros)

lemma settle_step_decreases: "settle_step s t \<Longrightarrow> in_flight t < in_flight s"
  by (induction rule: settle_step.induct)
     (auto simp: in_flight_def finish_generate_def zip_done_def zip_failed_def length_remove1
           split: sum.splits dest: length_pos_if_in_set)

lemma settle_step_exists:
  "in_flight s \<noteq> 0 \<Longrightarrow> \<exists>t. settle_step s t"
proof -
  assume "in_flight s \<noteq> 0"
  then consider d ds where "pending_gen s = d # ds" | j js where "pending_zip s = j # js"
    by (cases "pending_gen s"; cases "pending_zip s") (auto simp: in_flight_def)
  then show ?thesis
  proof cases
    case 1
    then show ?thesis
      using settle_step.settle [of d s "\<lambda>_. Inl ThrownValue" "\<lambda>_. Inr JNull"] by auto
  next
    case 2
    then show ?thesis using settle_step.zip_ok [of j s] by auto
  qed
qed

lemma map_of_zip_entries:
  "map_of (zip_entries fs) = map_of (rev (map (\<lambda>f. (path f, content f)) fs))"
proof -
  have "map_of (foldl (\<lambda>z f. prop_set z (path f) (content f)) z0 fs)
          = map_of z0 ++ map_of (rev (map (\<lambda>f. (path f, content f)) fs))" for z0
    by (induction fs arbitrary: z0) (simp_all add: map_add_assoc)
  then show ?thesis by (simp add: zip_entries_def)
qed

lemma reachable_error: "reachable s \<Longrightarrow> pred_option shown_error_ok (error s)"
proof (induction rule: reachable.induct)
  case init
  then show ?case by (simp add: init_state_def)
next
  case (step s t)
  note ih = step.IH
  from step.hyps(2) show ?case
  proof cases
    case (settle d call parse)
    then show ?thesis using ih
      by (auto simp: finish_generate_def split: sum.splits) (auto simp: shown_error_ok_def)
  qed (use ih in \<open>auto simp: handle_submit_def start_generate_def handle_download_def zip_done_def
                  zip_failed_def shown_error_ok_def\<close>)
qed

text \<open>A successful generation used by the examples: the model returns one file.\<close>

lemma generation_example:
  "snd (generateAnsibleRole (\<lambda>_. Inr (Some ''{}'')) (\<lambda>_. Inr (JObj [(''r/a.yml'', JStr ''x'')]))
     default_description) = Inr [\<lparr>path = ''r/a.yml'', content = JStr ''x''\<rparr>]"
  by (simp add: generateAnsibleRole_def parse_response_def files_of_value_def js_eval)

lemma example_state:
  "reachable (finish_generate (handle_submit init_state) default_description
                (Inr [\<lparr>path = ''r/a.yml'', content = JStr ''x''\<rparr>]))
   \<and> files_panel_shown (finish_generate (handle_submit init_state) default_description
                (Inr [\<lparr>path = ''r/a.yml'', content = JStr ''x''\<rparr>]))"
  by (rule generated_state [OF generation_example])

section \<open>Properties of the controller\<close>

text \<open>
  C6: in every reachable state at most one generation is in flight, and exactly while
  the loading flag is set; while loading there are no files and no selection; the
  selection is one of the files; and a non-empty file list is the result of a
  successful \<open>generateAnsibleRole\<close>.
\<close>

theorem reachable_app_inv: "reachable s \<Longrightarrow> app_inv s"
proof (induction rule: reachable.induct)
  case init
  show ?case by (rule app_inv_init)
next
  case (step s t)
  then show ?case by (blast intro: app_step_inv)
qed

theorem reachable_app_inv_witness:
  "reachable (handle_submit init_state) \<and> app_inv (handle_submit init_state)"
proof -
  have r: "reachable (handle_submit init_state)"
    by (rule reachable.step [OF reachable.init app_step.submit [OF submit_enabled_init]])
  show ?thesis using r reachable_app_inv [OF r] by simp
qed

text \<open>
  C7: every step of the controller from a reachable state is a step of the
  specification's machine Idle / Generating / Succeeded / Failed (or stays in place),
  except a step that sets the zip failure message.
\<close>

theorem app_step_refines:
  assumes "reachable s" and "app_step s t"
  shows "spec_step (phase_of s) (phase_of t) \<or> error t = Some zip_error_msg"
  using assms(2)
proof cases
  case submit
  then show ?thesis
    by (auto simp: submit_enabled_iff handle_submit_def start_generate_def phase_of_def
             intro: spec_step.intros)
next
  case (settle d call parse)
  have "app_inv s" using assms(1) by (rule reachable_inv)
  with settle have "loading s" by (auto simp: app_inv_def)
  moreover have "snd (generateAnsibleRole call parse d) = Inr fs \<Longrightarrow> fs \<noteq> []" for fs
    by (rule generateAnsibleRole_nonempty)
  ultimately show ?thesis using settle
    by (auto simp: finish_generate_def phase_of_def intro: spec_step.intros split: sum.splits)
qed (auto simp: phase_of_def handle_download_def zip_done_def zip_failed_def files_panel_shown_def
         intro: spec_step.intros)

theorem app_step_refines_witness:
  "spec_step (phase_of init_state) (phase_of (handle_submit init_state))
   \<or> error (handle_submit init_state) = Some zip_error_msg"
  by (rule app_step_refines [OF reachable.init app_step.submit [OF submit_enabled_init]])

text \<open>
  C21: the interleaving the specification excludes happens: a download started before a
  new submission fails while the new generation is in flight, and the generation's
  successful settlement then shows the zip failure instead of the new files.
\<close>

theorem stale_zip_error:
  "\<exists>s d fs. reachable s \<and> d \<in> set (pending_gen s)
     \<and> (\<exists>call parse. snd (generateAnsibleRole call parse d) = Inr fs)
     \<and> render_content key (finish_generate s d (Inr fs)) = ErrorPanel zip_error_msg"
proof -
  define call :: transport where "call = (\<lambda>_. Inr (Some ''{}''))"
  define parse :: json_parser where "parse = (\<lambda>_. Inr (JObj [(''nginx/tasks/main.yml'', JNum 5)]))"
  define f where "f = \<lparr>path = ''nginx/tasks/main.yml'', content = JNum 5\<rparr>"
  define d where "d = default_description"
  have gen: "snd (generateAnsibleRole call parse d) = Inr [f]"
    by (simp add: call_def parse_def f_def generateAnsibleRole_def parse_response_def
                  files_of_value_def js_eval)
  define s2 where "s2 = finish_generate (handle_submit init_state) d (Inr [f])"
  have r2: "reachable s2" and sh2: "files_panel_shown s2"
    using generated_state [OF gen [unfolded d_def]] by (simp_all add: s2_def d_def)
  have r3: "reachable (handle_download s2)"
    by (rule reachable.step [OF r2 app_step.download [OF sh2]])
  have en3: "submit_enabled (handle_download s2)"
    using sh2 default_description_nonblank
    by (simp add: s2_def submit_enabled_iff handle_download_def finish_generate_def
                  handle_submit_def start_generate_def init_state_def files_panel_shown_def)
  define s4 where "s4 = handle_submit (handle_download s2)"
  have r4: "reachable s4"
    unfolding s4_def by (rule reachable.step [OF r3 app_step.submit [OF en3]])
  define j where "j = (root_dir [f] @ ''.zip'', zip_entries [f])"
  have j4: "j \<in> set (pending_zip s4)"
    using default_description_nonblank
    by (simp add: j_def s4_def s2_def handle_download_def finish_generate_def
                  handle_submit_def start_generate_def init_state_def d_def)
  have r5: "reachable (zip_failed s4 j)"
    by (rule reachable.step [OF r4 app_step.zip_fail [OF j4]])
  have p5: "d \<in> set (pending_gen (zip_failed s4 j))"
    using default_description_nonblank
    by (simp add: d_def zip_failed_def s4_def s2_def handle_download_def finish_generate_def
                  handle_submit_def start_generate_def init_state_def)
  have "render_content key (finish_generate (zip_failed s4 j) d (Inr [f])) = ErrorPanel zip_error_msg"
    by (simp add: render_content_def finish_generate_def zip_failed_def)
  with r5 p5 gen show ?thesis by blast
qed

text \<open>
  C26: the archive is named after the first file's first path segment, and
  \<open>ansible_role\<close> when that segment is empty.
\<close>

theorem root_dir_first_segment:
  "root_dir (f # fs) =
     (if takeWhile (\<lambda>c. c \<noteq> CHR ''/'') (path f) = [] then ''ansible_role''
      else takeWhile (\<lambda>c. c \<noteq> CHR ''/'') (path f))"
proof -
  obtain w ws where "js_split CHR ''/'' (path f) = w # ws"
    using js_split_not_Nil by (metis neq_Nil_conv)
  moreover from this have "w = takeWhile (\<lambda>c. c \<noteq> CHR ''/'') (path f)"
    using hd_js_split [of "CHR ''/''" "path f"] by simp
  ultimately show ?thesis by (simp add: root_dir_def)
qed

text \<open>
  C8: no reachable state is stuck waiting: from every reachable state, settling the
  awaited promises leads to a reachable state with nothing in flight and the loading
  flag cleared.
\<close>

theorem settle_live:
  "reachable s \<Longrightarrow>
   \<exists>t. settle_step\<^sup>*\<^sup>* s t \<and> reachable t \<and> pending_gen t = [] \<and> pending_zip t = [] \<and> \<not> loading t"
proof (induction "in_flight s" arbitrary: s rule: less_induct)
  case less
  show ?case
  proof (cases "in_flight s = 0")
    case True
    moreover have "loading s \<longleftrightarrow> pending_gen s \<noteq> []"
      using reachable_inv [OF less.prems] by (simp add: app_inv_def)
    ultimately show ?thesis using less.prems by (intro exI [of _ s]) (simp add: in_flight_def)
  next
    case False
    then obtain t where st: "settle_step s t" using settle_step_exists by blast
    then have "reachable t" using less.prems by (blast intro: reachable.step settle_step_app_step)
    with less.hyps [OF settle_step_decreases [OF st]] obtain u where
      "settle_step\<^sup>*\<^sup>* t u \<and> reachable u \<and> pending_gen u = [] \<and> pending_zip u = [] \<and> \<not> loading u"
      by blast
    with st show ?thesis by (blast intro: converse_rtranclp_into_rtranclp)
  qed
qed

theorem settle_live_witness:
  "reachable (handle_submit init_state) \<and> loading (handle_submit init_state)
   \<and> (\<exists>t. settle_step\<^sup>*\<^sup>* (handle_submit init_state) t \<and> reachable t
        \<and> pending_gen t = [] \<and> pending_zip t = [] \<and> \<not> loading t)"
proof -
  have r: "reachable (handle_submit init_state)"
    by (rule reachable.step [OF reachable.init app_step.submit [OF submit_enabled_init]])
  have "loading (handle_submit init_state)"
    using default_description_nonblank by (simp add: handle_submit_def start_generate_def init_state_def)
  with r show ?thesis using settle_live [OF r] by blast
qed

text \<open>
  C22: a response whose values are not strings crashes the page: the parser accepts any
  JSON value as a file's content, and whenever a generation settles and the selection
  effect picks a file whose content is an object, the reached state renders
  \<open>{selectedFile.content}\<close> with an object child, which React rejects.
\<close>

theorem settled_object_content_throws:
  assumes "reachable s" and "d \<in> set (pending_gen s)" and "error s = None"
    and "snd (generateAnsibleRole call parse d) = Inr fs"
    and "initial_selection fs = Some f" and "\<not> react_renderable (content f)"
  shows "reachable (finish_generate s d (Inr fs))
         \<and> render_content key (finish_generate s d (Inr fs)) = RenderThrows"
proof -
  have "reachable (finish_generate s d (snd (generateAnsibleRole call parse d)))"
    by (rule reachable.step [OF assms(1) app_step.settle [OF assms(2)]])
  moreover have "fs \<noteq> []" using assms(4) by (rule generateAnsibleRole_nonempty)
  ultimately show ?thesis
    using assms(3-6) by (simp add: render_content_def finish_generate_def)
qed

theorem settled_object_content_throws_witness:
  "reachable (handle_submit init_state)
   \<and> default_description \<in> set (pending_gen (handle_submit init_state))
   \<and> error (handle_submit init_state) = None
   \<and> snd (generateAnsibleRole (\<lambda>_. Inr (Some ''{}''))
          (\<lambda>_. Inr (JObj [(''r/vars.yml'', JObj [(''port'', JNum 80)])])) default_description)
       = Inr [\<lparr>path = ''r/vars.yml'', content = JObj [(''port'', JNum 80)]\<rparr>]
   \<and> initial_selection [\<lparr>path = ''r/vars.yml'', content = JObj [(''port'', JNum 80)]\<rparr>]
       = Some \<lparr>path = ''r/vars.yml'', content = JObj [(''port'', JNum 80)]\<rparr>
   \<and> \<not> react_renderable (JObj [(''port'', JNum 80)])
   \<and> render_content id (finish_generate (handle_submit init_state) default_description
       (Inr [\<lparr>path = ''r/vars.yml'', content = JObj [(''port'', JNum 80)]\<rparr>])) = RenderThrows"
proof -
  have r: "reachable (handle_submit init_state)"
    by (rule reachable.step [OF reachable.init app_step.submit [OF submit_enabled_init]])
  have p: "default_description \<in> set (pending_gen (handle_submit init_state))"
    and e: "error (handle_submit init_state) = None"
    using default_description_nonblank
    by (simp_all add: handle_submit_def start_generate_def init_state_def)
  have g: "snd (generateAnsibleRole (\<lambda>_. Inr (Some ''{}''))
          (\<lambda>_. Inr (JObj [(''r/vars.yml'', JObj [(''port'', JNum 80)])])) default_description)
       = Inr [\<lparr>path = ''r/vars.yml'', content = JObj [(''port'', JNum 80)]\<rparr>]"
    by (simp add: generateAnsibleRole_def parse_response_def files_of_value_def js_eval)
  have i: "initial_selection [\<lparr>path = ''r/vars.yml'', content = JObj [(''port'', JNum 80)]\<rparr>]
       = Some \<lparr>path = ''r/vars.yml'', content = JObj [(''port'', JNum 80)]\<rparr>"
    by (simp add: initial_selection_def js_ends_with_def)
  show ?thesis
    using settled_object_content_throws [OF r p e g i, of id] r p e g i by simp
qed

text \<open>
  C23: every error message on screen comes from one of two places: the zip failure, or
  \<open>Generation failed: \<close> followed by the message of an error that
  \<open>generateAnsibleRole\<close> can end in (\<open>An unknown error occurred.\<close> for a thrown
  non-\<open>Error\<close>).
\<close>

theorem error_panel_source:
  "reachable s \<Longrightarrow> render_content key s = ErrorPanel m \<Longrightarrow>
   m = zip_error_msg \<or> (\<exists>call parse d e. snd (generateAnsibleRole call parse d) = Inl e \<and> m = error_text e)"
  using reachable_error [of s] by (auto simp: render_content_def shown_error_ok_def split: if_splits option.splits)

theorem error_panel_source_witness:
  "reachable (finish_generate (handle_submit init_state) default_description
                (Inl (ErrorObj ''ApiError'' ''quota'')))
   \<and> render_content id (finish_generate (handle_submit init_state) default_description
                (Inl (ErrorObj ''ApiError'' ''quota''))) = ErrorPanel ''Generation failed: quota''
   \<and> (''Generation failed: quota'' = zip_error_msg
      \<or> (\<exists>call parse d e. snd (generateAnsibleRole call parse d) = Inl e
                         \<and> ''Generation failed: quota'' = error_text e))"
proof -
  define call :: transport where "call = (\<lambda>_. Inl (ErrorObj ''ApiError'' ''quota''))"
  have gen: "snd (generateAnsibleRole call (\<lambda>_. Inr JNull) default_description)
               = Inl (ErrorObj ''ApiError'' ''quota'')"
    by (simp add: call_def generateAnsibleRole_def)
  have r1: "reachable (handle_submit init_state)"
    by (rule reachable.step [OF reachable.init app_step.submit [OF submit_enabled_init]])
  have p1: "default_description \<in> set (pending_gen (handle_submit init_state))"
    using default_description_nonblank
    by (simp add: handle_submit_def start_generate_def init_state_def)
  have r: "reachable (finish_generate (handle_submit init_state) default_description
                (Inl (ErrorObj ''ApiError'' ''quota'')))"
    using reachable.step [OF r1 app_step.settle [OF p1, of call "\<lambda>_. Inr JNull"]] gen by simp
  have e: "render_content id (finish_generate (handle_submit init_state) default_description
                (Inl (ErrorObj ''ApiError'' ''quota''))) = ErrorPanel ''Generation failed: quota''"
    by (simp add: render_content_def finish_generate_def error_text_def)
  show ?thesis using r e error_panel_source [OF r e] by simp
qed

end
