(* ===== verification/View.thy ===== *)
theory View
  imports App
begin

text \<open>
  What \<open>App\<close> (\<open>src/App.tsx\<close>) renders for a controller state: the page title, the
  \<open>AnsibleForm\<close> with the description and \<open>isLoading\<close>, and the \<open>CodeDisplay\<close>
  with the files, \<open>isLoading\<close> and the error.  The callbacks passed down
  (\<open>onSubmit = handleGenerate\<close>, \<open>onDownloadZip = handleDownloadZip\<close>, the file
  selection) are the rules \<open>submit\<close>, \<open>download\<close> and \<open>select\<close> of \<open>app_step\<close>.
  The property here relates the two children: the form and the code panel agree on
  the loading flag in every state.
\<close>

record app_view =
  av_title :: string
  av_form :: form_view
  av_panel :: panel

definition render_app :: "(string \<Rightarrow> 'k::linorder) \<Rightarrow> app_state \<Rightarrow> app_view" where
  "render_app key s =
     \<lparr>av_title = ''Ansible Role Generator'',
      av_form = ansible_form (description s) (loading s),
      av_panel = render_content key s\<rparr>"

section \<open>Lemmas\<close>

lemma render_content_Spinner: "render_content key s = Spinner \<longleftrightarrow> loading s"
  by (simp add: render_content_def split: option.splits)

section \<open>Properties of the page\<close>

text \<open>
  C27: the form and the code panel agree on the loading flag: the button shows the
  spinner and \<open> Generating...\<close> exactly while the panel shows the spinner, and it
  is disabled exactly then or when the text area holds only whitespace.
\<close>

theorem form_tracks_panel:
  "fv_spinner (av_form (render_app key s)) = (av_panel (render_app key s) = Spinner)
   \<and> fv_label (av_form (render_app key s)) =
       (if av_panel (render_app key s) = Spinner then '' Generating...'' else ''Generate Ansible Role'')
   \<and> fv_disabled (av_form (render_app key s)) =
       (av_panel (render_app key s) = Spinner \<or> js_trim (fv_value (av_form (render_app key s))) = [])"
  by (simp add: render_app_def ansible_form_def render_content_Spinner)

end
