(* ===== verification/Spec2Isabelle.thy ===== *)
theory Spec2Isabelle
  imports View
begin

text \<open>
  \<^bold>\<open>Ansible role generator: a verification development.\<close>

  The program (TypeScript, React) turns a free-text description into an Ansible role:
  \<open>src/components/AnsibleForm.tsx\<close> submits the description; \<open>src/App.tsx\<close>
  (\<open>handleGenerate\<close>) calls \<open>generateAnsibleRole\<close> of
  \<open>src/services/geminiService.ts\<close>, which builds a prompt (\<open>buildPrompt\<close>), sends it
  to the Gemini model, parses the answer as one JSON object from paths to contents and
  returns the file list; \<open>src/components/CodeDisplay.tsx\<close> builds a tree from the
  paths (\<open>buildFileTree\<close>), renders it (\<open>FileTree\<close>) and shows the selected file;
  \<open>handleDownloadZip\<close> packs the files into an archive with JSZip.

  \<^bold>\<open>Theories.\<close>
  \<^item> \<open>Prelude\<close>: the JavaScript values and runtime operations the code relies on:
    JSON values (\<open>json\<close>), thrown values (\<open>exn\<close>), the \<open>GeneratedFile\<close> record
    (\<open>gfile\<close>; \<open>types.ts\<close> is not in the repository's files, so it is modelled from
    the specification), ordinary objects as association lists in creation order with
    property writes (\<open>prop_set\<close>), the object \<open>JSON.parse\<close> builds
    (\<open>js_object_of\<close>), the key order of \<open>Object.entries\<close> (\<open>own_keys\<close>, array
    indices first), \<open>Object.entries\<close> of a parsed value (\<open>object_entries\<close>), and the
    string methods \<open>split\<close>, \<open>trim\<close>, \<open>endsWith\<close>, \<open>includes\<close>.  Generic lemmas
    on these (maps of property writes, permutation by \<open>own_keys\<close>, split/join round
    trip, decimal indices) are shared by the components; \<open>js_eval\<close> evaluates them.
  \<^item> \<open>FileTree\<close>: \<open>TreeNode\<close> (\<open>tnode\<close>) and \<open>buildFileTree\<close>, the inner walk
    \<open>insert_parts\<close> with \<open>child_slot\<close> for \<open>!currentNode.children[part]\<close>.
    Lemmas: insertion and lookup (\<open>insert_parts_file_at\<close>, after the update/lookup
    theorems of nested environments and tries), the well-formedness invariant
    \<open>wf_node\<close>, the node type \<open>typed_node\<close> (directory or file node) and the height,
    each preserved by \<open>insert_parts\<close>, and the refinement of \<open>buildFileTree\<close> into
    the last-write-wins map \<open>tree_spec\<close>.
  \<^item> \<open>TreeView\<close>: the \<open>FileTree\<close> component (\<open>render_node\<close>, one row per node in
    pre-order, children sorted by a collation key) and the tree panel
    (\<open>render_tree\<close>); lemmas on the shape, order, click handlers and levels of rows.
  \<^item> \<open>Prompt\<close>: \<open>buildPrompt\<close> as the template's fixed prefix and suffix around the
    description.
  \<^item> \<open>Gemini\<close>: \<open>generateAnsibleRole\<close>: the request record, the response text (possibly
    undefined), trimming, \<open>files_of_value\<close> (\<open>Object.entries\<close> and the mapping to
    records), the empty check, the \<open>catch\<close> block (\<open>rethrow_or_wrap\<close>) and the
    console log.  The model call and \<open>JSON.parse\<close> are parameters (\<open>transport\<close>,
    \<open>json_parser\<close>), so every theorem holds for every answer of the model.
  \<^item> \<open>Form\<close>: \<open>AnsibleForm\<close>'s default description and what it renders
    (\<open>ansible_form\<close>: text area, button disabled flag, spinner and label).
  \<^item> \<open>App\<close>: the controller state (\<open>app_state\<close>: files, loading flag, error,
    selection, description, and the calls in flight), \<open>handleSubmit\<close>,
    \<open>handleGenerate\<close> split at its \<open>await\<close> (\<open>start_generate\<close>,
    \<open>finish_generate\<close>), the selection effect (\<open>initial_selection\<close>),
    \<open>renderContent\<close> (\<open>render_content\<close>, with the download button's disabled
    flag), \<open>handleDownloadZip\<close> split at its \<open>await\<close> (\<open>handle_download\<close>,
    \<open>zip_done\<close>, \<open>zip_failed\<close>), and \<open>app_step\<close>, the inductive relation of
    all events in any interleaving, with its reachable states, its invariant
    \<open>app_inv\<close>, the abstraction \<open>phase_of\<close> onto the specification's machine
    \<open>spec_step\<close>, and \<open>settle_step\<close>, the events no user causes.
  \<^item> \<open>View\<close>: the render of \<open>App\<close> (\<open>render_app\<close>: the form and the code panel
    for a controller state).  \<open>render_content\<close> includes React's rejection of an
    object as the code pane's child (\<open>react_renderable\<close>).
  \<^item> this theory: properties across components (tree and archive agree, every
    generated file reaches the tree, the contents of a download) and the fixtures of
    the specification's nginx scenario.

  \<^bold>\<open>What the theorems show.\<close>  The claims C1..C27 are stated after \<open>text\<close> blocks
  naming them, the most important first.  The tree is a last-write-wins map of the paths,
  well-formed and typed (C1, C2, C3).  Generation either returns a non-empty file set
  from the one response or one of five kinds of error (C4, C5).  The controller keeps at
  most one generation in flight and refines the specification's four-state machine
  except for the zip failure (C6, C7), and its awaited calls can always settle to a
  state with nothing in flight (C8).  The prompt embeds the description verbatim between
  its delimiters (C9); the parser inverts the encoding of a file list (C10).  Tree and
  archive agree on every path (C11); every file of a successful generation is stored in
  the tree at its own path, shown on the specification's nginx scenario (C12); the
  archive holds exactly the generated files (C13).  In the tree panel every file row
  selects one of the files (C14), folders list their children sorted (C15), every
  prefix of a stored path is a folder (C16), and indentation is bounded by the longest
  path (C17).  A parse error becomes the generic message with the text logged only
  (C18), the object \<open>{}\<close> the empty-result error (C19).  The divergences from the
  specification and the bugs: a rejected response containing \<open>empty set of files\<close>
  reaches the user unchanged (C20); a stale zip failure hides a later successful
  generation (C21); an object among the response's values crashes the page once it is
  selected (C22); every message the error panel shows still comes from the zip failure
  or a generation error (C23); the top level of the tree is not sorted (C24); the parser
  never repeats a path, keeping the last value of a repeated key (C25).  The archive is
  named after the first segment (C26), and form and panel agree on the loading flag
  (C27).  The findings of the manifest that no claim proves (the description occurring
  twice in the prompt, arrays accepted as file sets, index-like paths reordered, the
  untrimmed submission, the \<open>endsWith\<close> selection) follow from the definitions on
  concrete inputs.

  \<^bold>\<open>Bounds and fuel.\<close>  Every function of the model is total and structurally
  recursive or has a size measure (\<open>render_node\<close>); there is no fuel.  The
  asynchronous calls are events of \<open>app_step\<close>; C8 shows that from every reachable
  state the settlements can always bring the controller to rest (each removes one
  awaited call, \<open>settle_step_decreases\<close>).  Strings are lists of 8-bit characters: JavaScript strings are UTF-16, which matters only for
  \<open>trim\<close> (the whitespace set is cut to the Latin-1 range) and for the character
  indices of a top-level JSON string.  JSON numbers are integers here; no theorem
  depends on their values.

  \<^bold>\<open>Not modelled.\<close>  The React rendering beyond the rows and panels listed above
  (markup, styles, icons: \<open>components/icons\<close> is not in the files); the Gemini SDK and
  \<open>JSON.parse\<close> (parameters); JSZip (the archive is the list of \<open>zip.file\<close> calls,
  with a later call for the same path replacing an entry; folder entries and the blob are
  not modelled; \<open>generateAsync\<close> may fail at any time); \<open>localeCompare\<close> (a collation
  key parameter; witnesses use code-unit order); the browser download link.  After a
  \<open>__proto__\<close> segment the page's \<open>Object.prototype\<close> is written and the model
  stops (\<open>buildFileTree\<close> is \<open>None\<close>).  React's scheduling is abstracted: the
  selection effect of \<open>CodeDisplay\<close> (\<open>useEffect\<close> on \<open>files\<close>) is applied in the
  same step as the state change that triggers it (\<open>start_generate\<close>,
  \<open>finish_generate\<close>), so the one render in between, with the new files and the old
  selection, is not modelled; no claim is about that render.
\<close>

definition nginx_raw :: string where
  "nginx_raw = ''{'' @ [CHR 0x22] @ ''nginx/tasks/main.yml'' @ [CHR 0x22] @ '': ''
                @ [CHR 0x22] @ ''- name: install'' @ [CHR 0x5C, CHR ''n'', CHR 0x22] @ ''}''"

text \<open>
  The scenario of the specification: a model that answers the prompt for
  \<open>install nginx\<close> with \<open>{"nginx/tasks/main.yml": "- name: install\n"}\<close>, and
  \<open>JSON.parse\<close> on that text.
\<close>

definition nginx_file :: gfile where
  "nginx_file = \<lparr>path = ''nginx/tasks/main.yml'', content = JStr (''- name: install'' @ [lf])\<rparr>"

definition nginx_call :: transport where
  "nginx_call req =
     (if req_contents req = buildPrompt ''install nginx'' then Inr (Some nginx_raw)
      else Inl (ErrorObj ''ApiError'' ''unexpected request''))"

definition nginx_parse :: json_parser where
  "nginx_parse t =
     (if t = nginx_raw then Inr (JObj [(''nginx/tasks/main.yml'', JStr (''- name: install'' @ [lf]))])
      else Inl (ErrorObj ''SyntaxError'' ''Unexpected token''))"

section \<open>Lemmas\<close>

text \<open>The tree and the archive store the last file of each path.\<close>

lemma tree_spec_zip_entries:
  "tree_path (js_split CHR ''/'' p) \<Longrightarrow>
   map_option content (tree_spec fs (js_split CHR ''/'' p)) = map_of (zip_entries fs) p"
proof (induction fs)
  case Nil
  then show ?case by (simp add: tree_spec_def zip_entries_def)
next
  case (Cons f fs)
  have IH: "map_of (rev (map (\<lambda>f. (path f, content f)) fs)) p
              = map_option content (tree_spec fs (js_split CHR ''/'' p))"
    using Cons by (simp add: map_of_zip_entries)
  show ?case
  proof (cases "path f = p")
    case True
    then have "path_segments f = js_split CHR ''/'' p" by (simp add: path_segments_def)
    with True Cons.prems IH show ?thesis
      by (cases "tree_spec fs (js_split CHR ''/'' p)")
         (simp_all add: tree_spec_Cons map_of_zip_entries map_add_def split: option.splits)
  next
    case False
    then have "path_segments f \<noteq> js_split CHR ''/'' p" by (simp add: path_segments_eq_split)
    with False IH show ?thesis
      by (cases "tree_spec fs (js_split CHR ''/'' p)")
         (simp_all add: tree_spec_Cons map_of_zip_entries map_add_def split: option.splits)
  qed
qed

lemma tree_spec_distinct:
  assumes "distinct (map path fs)" and "list_all (\<lambda>f. tree_path (path_segments f)) fs"
    and "f \<in> set fs"
  shows "tree_spec fs (path_segments f) = Some f"
proof -
  have "filter (\<lambda>f. tree_path (path_segments f)) fs = fs"
    using assms(2) by (simp add: list_all_iff)
  moreover have "distinct (map fst (rev (map (\<lambda>f. (path_segments f, f)) fs)))"
    using distinct_path_segments [OF assms(1)] by (simp add: rev_map [symmetric] comp_def)
  ultimately show ?thesis
    using assms(3) by (simp add: tree_spec_def map_of_eq_Some_iff)
qed

section \<open>Properties across components\<close>

text \<open>
  C13: from any reachable state that shows the file panel, the download queues one
  archive named after the first path segment that holds exactly the generated files,
  in order, each once.
\<close>

theorem download_archive:
  assumes "reachable s" and "files_panel_shown s"
  shows "pending_zip (handle_download s) =
           pending_zip s @ [(root_dir (files s) @ ''.zip'', map (\<lambda>f. (path f, content f)) (files s))]"
proof -
  have "app_inv s" using assms(1) by (rule reachable_inv)
  moreover have "files s \<noteq> []" using assms(2) by (simp add: files_panel_shown_def)
  ultimately obtain call parse d where "snd (generateAnsibleRole call parse d) = Inr (files s)"
    by (auto simp: app_inv_def)
  then obtain v where "files_of_value v = Inr (files s)" by (blast dest: generateAnsibleRole_value)
  then have "distinct (map path (files s))" by (rule files_of_value_distinct)
  with \<open>files s \<noteq> []\<close> show ?thesis by (simp add: handle_download_def zip_entries_distinct)
qed

theorem download_archive_witness:
  "pending_zip (handle_download (finish_generate (handle_submit init_state) default_description
       (Inr [\<lparr>path = ''r/a.yml'', content = JStr ''x''\<rparr>])))
   = [(''r.zip'', [(''r/a.yml'', JStr ''x'')])]"
proof -
  from example_state have
    r: "reachable (finish_generate (handle_submit init_state) default_description
                     (Inr [\<lparr>path = ''r/a.yml'', content = JStr ''x''\<rparr>]))"
    and sh: "files_panel_shown (finish_generate (handle_submit init_state) default_description
                     (Inr [\<lparr>path = ''r/a.yml'', content = JStr ''x''\<rparr>]))"
    by simp_all
  show ?thesis
    using download_archive [OF r sh] default_description_nonblank
    by (simp add: finish_generate_def handle_submit_def start_generate_def init_state_def
                  root_dir_def)
qed

text \<open>
  C12: the pipeline keeps every generated file: for every successful generation whose
  paths avoid the inherited names, \<open>buildFileTree\<close> succeeds and stores each file at
  the node of its own path (the parser never repeats a path, so no file is overwritten
  by last-write-wins).  The witness runs the specification's scenario end to end.
\<close>

theorem generated_files_in_tree:
  assumes gen: "snd (generateAnsibleRole call parse d) = Inr fs"
    and tp: "list_all (\<lambda>f. tree_path (path_segments f)) fs"
  shows "\<exists>t. buildFileTree fs = Some t \<and> list_all (\<lambda>f. file_at t (path_segments f) = Some f) fs"
proof -
  obtain v where "files_of_value v = Inr fs" using generateAnsibleRole_value [OF gen] by blast
  then have dist: "distinct (map path fs)" by (rule files_of_value_distinct)
  have "\<not> list_ex (\<lambda>f. ''__proto__'' \<in> set (path_segments f)) fs"
    using tp proto_in_names by (auto simp: list_all_iff list_ex_iff tree_path_def)
  then obtain t where b: "buildFileTree fs = Some t" and fa: "file_at t = tree_spec fs"
    using foldl_add_file [OF wf_root, of fs]
    by (cases "buildFileTree fs") (auto simp: buildFileTree_def)
  have "list_all (\<lambda>f. file_at t (path_segments f) = Some f) fs"
    using tree_spec_distinct [OF dist tp] by (simp add: fa list_all_iff)
  with b show ?thesis by blast
qed

theorem generated_files_in_tree_witness:
  "snd (generateAnsibleRole nginx_call nginx_parse ''install nginx'') = Inr [nginx_file]
   \<and> list_all (\<lambda>f. tree_path (path_segments f)) [nginx_file]
   \<and> buildFileTree [nginx_file] = Some (TNode ''root'' (Some [(''nginx'', TNode ''nginx''
        (Some [(''tasks'', TNode ''tasks'' (Some [(''main.yml'', TNode ''main.yml'' None (Some nginx_file))])
           None)]) None)]) None)
   \<and> file_at (TNode ''root'' (Some [(''nginx'', TNode ''nginx''
        (Some [(''tasks'', TNode ''tasks'' (Some [(''main.yml'', TNode ''main.yml'' None (Some nginx_file))])
           None)]) None)]) None) [''nginx'', ''tasks'', ''main.yml''] = Some nginx_file
   \<and> render_tree id '''' (TNode ''root'' (Some [(''nginx'', TNode ''nginx''
        (Some [(''tasks'', TNode ''tasks'' (Some [(''main.yml'', TNode ''main.yml'' None (Some nginx_file))])
           None)]) None)]) None)
     = [FolderRow 0 ''nginx'', FolderRow 1 ''tasks'', FileRow 2 ''main.yml'' False (Some nginx_file)]"
proof -
  have gen: "snd (generateAnsibleRole nginx_call nginx_parse ''install nginx'') = Inr [nginx_file]"
    by (simp add: generateAnsibleRole_def gemini_request_def parse_response_def files_of_value_def
                  nginx_call_def nginx_parse_def nginx_raw_def nginx_file_def js_eval)
  have tp: "list_all (\<lambda>f. tree_path (path_segments f)) [nginx_file]"
    by (simp add: nginx_file_def path_segments_def tree_path_def object_proto_names_def)
  have b: "buildFileTree [nginx_file] = Some (TNode ''root'' (Some [(''nginx'', TNode ''nginx''
        (Some [(''tasks'', TNode ''tasks'' (Some [(''main.yml'', TNode ''main.yml'' None (Some nginx_file))])
           None)]) None)]) None)"
    by (simp add: nginx_file_def tree_eval)
  have seg: "path_segments nginx_file = [''nginx'', ''tasks'', ''main.yml'']"
    by (simp add: nginx_file_def path_segments_def)
  have p: "path nginx_file = ''nginx/tasks/main.yml''" by (simp add: nginx_file_def)
  show ?thesis
    using generated_files_in_tree [OF gen tp] gen tp b seg
    by (simp add: render_tree_def js_eval p)
qed

text \<open>
  C11: the tree panel and the archive agree: for every path whose segments stay in the
  tree, the file the tree stores there has the content \<open>zip.file\<close> last wrote for
  that path.
\<close>

theorem tree_matches_archive:
  assumes "buildFileTree fs = Some t" and "tree_path (js_split CHR ''/'' p)"
  shows "map_option content (file_at t (js_split CHR ''/'' p)) = map_of (zip_entries fs) p"
proof -
  have "file_at t = tree_spec fs"
    using foldl_add_file [OF wf_root, of fs] assms(1) by (simp add: buildFileTree_def split: if_splits)
  with assms(2) show ?thesis by (simp add: tree_spec_zip_entries)
qed

theorem tree_matches_archive_witness:
  "buildFileTree [\<lparr>path = ''r/a'', content = JStr ''1''\<rparr>, \<lparr>path = ''r/a'', content = JStr ''2''\<rparr>]
     = Some (TNode ''root'' (Some [(''r'', TNode ''r'' (Some [(''a'', TNode ''a'' None
         (Some \<lparr>path = ''r/a'', content = JStr ''2''\<rparr>))]) None)]) None)
   \<and> tree_path (js_split CHR ''/'' ''r/a'')
   \<and> map_of (zip_entries [\<lparr>path = ''r/a'', content = JStr ''1''\<rparr>, \<lparr>path = ''r/a'', content = JStr ''2''\<rparr>]) ''r/a''
     = Some (JStr ''2'')"
proof -
  have b: "buildFileTree [\<lparr>path = ''r/a'', content = JStr ''1''\<rparr>, \<lparr>path = ''r/a'', content = JStr ''2''\<rparr>]
     = Some (TNode ''root'' (Some [(''r'', TNode ''r'' (Some [(''a'', TNode ''a'' None
         (Some \<lparr>path = ''r/a'', content = JStr ''2''\<rparr>))]) None)]) None)"
    by (simp add: tree_eval)
  have tp: "tree_path (js_split CHR ''/'' ''r/a'')"
    by (simp add: tree_path_def object_proto_names_def)
  show ?thesis
    using tree_matches_archive [OF b tp] b tp by (simp add: file_at_def kids_def)
qed

end
